theory Spec2Isabelle
  imports Complex_Main "HOL-Library.AList"
begin

section \<open>The NERIES client (obspy/neries/client.py)\<close>

text \<open>
  The client talks to a remote SOAP service, fetches URLs and writes to files. The
  model makes these effects explicit: every remote call, file operation and download
  is appended to a trace of events, every exception is a value of \<open>py_error\<close>, and
  the remote side is a record of scripted responses (\<open>world\<close>). The polling loop of
  \<open>saveWaveform\<close> has no bound in the source, so it is a partial function whose
  value \<open>None\<close> stands for a loop that never ends.
\<close>

subsection \<open>Python values and errors\<close>

datatype py_error =
    SoapFault string
  | URLError string
  | IOError string
  | TypeError string
  | KeyError string
  | ValueError string
  | AttributeError string

text \<open>\<open>needle in haystack\<close> for two Python strings: a contiguous occurrence.\<close>

fun str_contains :: "string \<Rightarrow> string \<Rightarrow> bool" where
  "str_contains needle [] = (needle = [])"
| "str_contains needle (c # cs) =
     (take (length needle) (c # cs) = needle \<or> str_contains needle cs)"

subsection \<open>The suds client and the request plug-in\<close>

type_synonym attribute = "string \<times> string"

datatype plugin = RequestMSEEDPlugin

text \<open>
  \<open>_RequestMSEEDPlugin.marshalled\<close>: \<open>name\<close> is the name of the first child of the
  envelope's body (the remote method), \<open>attrs\<close> its attributes.
\<close>

fun marshalled :: "plugin \<Rightarrow> string \<Rightarrow> attribute list \<Rightarrow> attribute list" where
  "marshalled RequestMSEEDPlugin name attrs =
     (if name = ''dataRequest'' then attrs @ [(''DataFormat'', ''MSEED'')] else attrs)"

record SudsClient =
  plugins :: "plugin list"

text \<open>A new \<open>SudsClient(wsdl)\<close> has no plug-in.\<close>

definition new_SudsClient :: SudsClient where
  "new_SudsClient = \<lparr>plugins = []\<rparr>"

text \<open>
  The attributes of the body element of an outgoing call: suds runs the
  \<open>marshalled\<close> hook of each plug-in of \<open>client.options.plugins\<close> in turn.
\<close>

definition envelope_attrs :: "SudsClient \<Rightarrow> string \<Rightarrow> attribute list" where
  "envelope_attrs client name = foldl (\<lambda>attrs p. marshalled p name attrs) [] (plugins client)"

subsection \<open>Data of the waveform service\<close>

record Client =
  user :: string
  password :: string
  user_agent :: string

record UserTokenType =
  email :: string
  token_password :: string
  label :: string
  token_locale :: string

record StationIdentifierType =
  NetworkCode :: string
  StationCode :: string
  ChannelCode :: string
  LocId :: string
  beginPosition :: string
  endPosition :: string

text \<open>
  One \<open>RoutedRequest\<close> of a response. \<open>Id_attr\<close> is the attribute \<open>_Id\<close>. The source
  compares \<open>ReadyFlag\<close> with the string \<open>"false"\<close> and \<open>Fulfillment\<close> with the number
  \<open>100\<close>, and searches \<open>StatusDescription\<close> for a substring.
\<close>

record RoutedRequest =
  Id_attr :: string
  ReadyFlag :: string
  StatusDescription :: string
  Fulfillment :: int

record DataItem =
  DownloadURL :: string

datatype rpc_args =
    StationArgs UserTokenType StationIdentifierType
  | IdArgs UserTokenType "string list"

text \<open>
  The \<open>filename\<close> parameter: a string (\<open>basestring\<close>), an open \<open>file\<close> object of the
  caller, or any other object.
\<close>

datatype destination = Path string | FileObject nat | OtherObject

datatype handle = Opened string | Supplied nat

datatype event =
    Rpc string "attribute list" rpc_args
  | Open string
  | UrlOpen string
  | Write handle string
  | Close handle

text \<open>
  The scripted outside world. \<open>checkStatus w n ids\<close> is the answer to the status
  check number \<open>n\<close> (counted from 0); \<open>open_file w p\<close> is the error raised by
  \<open>open(p, "wb")\<close>, if any. Writing to and closing an open handle are taken to succeed.
\<close>

record world =
  dataRequest :: "attribute list \<Rightarrow> UserTokenType \<Rightarrow> StationIdentifierType
                    \<Rightarrow> py_error + RoutedRequest list"
  checkStatus :: "nat \<Rightarrow> string list \<Rightarrow> py_error + RoutedRequest list"
  dataRetrieve :: "string list \<Rightarrow> py_error + DataItem list"
  purgeData :: "string list \<Rightarrow> py_error + unit"
  urlopen :: "string \<Rightarrow> py_error + string"
  open_file :: "string \<Rightarrow> py_error option"

record outcome =
  trace :: "event list"
  returned :: "py_error + unit"
  client_after :: SudsClient

subsection \<open>saveWaveform\<close>

text \<open>\<open>user_agent.replace(' ', '_')\<close>\<close>

definition replace_spaces :: "string \<Rightarrow> string" where
  "replace_spaces s = map (\<lambda>c. if c = CHR '' '' then CHR ''_'' else c) s"

text \<open>Lines 514 to 519, the user token, and lines 520 to 529, the station filter.\<close>

definition make_usertoken :: "Client \<Rightarrow> UserTokenType" where
  "make_usertoken self =
     \<lparr>email = user self, token_password = password self,
      label = replace_spaces (user_agent self), token_locale = ''''\<rparr>"

definition make_stationid ::
  "string \<Rightarrow> string \<Rightarrow> string \<Rightarrow> string \<Rightarrow> string \<Rightarrow> string \<Rightarrow> StationIdentifierType" where
  "make_stationid network station location channel starttime endtime =
     \<lparr>NetworkCode = network, StationCode = station, ChannelCode = channel,
      LocId = location, beginPosition = starttime, endPosition = endtime\<rparr>"

text \<open>
  Lines 544 to 550, the status loop:
  \<^verbatim>\<open>
  while True:
      response = client.service.checkStatus(usertoken, request_ids)
      status = [r.ReadyFlag for r in response.RoutedRequest]
      if "false" in status:
          continue
      break
  \<close>
  \<open>n\<close> counts the checks made so far and \<open>tr\<close> is the trace so far; \<open>check_event\<close> is
  the event of one call. The result is the trace after the loop with the last
  response, or with the exception of the call that failed.
\<close>

definition check_event :: "SudsClient \<Rightarrow> UserTokenType \<Rightarrow> string list \<Rightarrow> event" where
  "check_event client usertoken request_ids =
     Rpc ''checkStatus'' (envelope_attrs client ''checkStatus'') (IdArgs usertoken request_ids)"

partial_function (option) poll ::
  "world \<Rightarrow> SudsClient \<Rightarrow> UserTokenType \<Rightarrow> string list \<Rightarrow> nat \<Rightarrow> event list
     \<Rightarrow> (event list \<times> (py_error + RoutedRequest list)) option" where
  "poll w client usertoken request_ids n tr =
     (case checkStatus w n request_ids of
        Inl e \<Rightarrow> Some (tr @ [check_event client usertoken request_ids], Inl e)
      | Inr response \<Rightarrow>
          if ''false'' \<in> set (map ReadyFlag response)
          then poll w client usertoken request_ids (Suc n)
                 (tr @ [check_event client usertoken request_ids])
          else Some (tr @ [check_event client usertoken request_ids], Inr response))"

text \<open>
  Lines 551 to 567: the filter of the fulfilled requests, \<open>dataRetrieve\<close> and the
  choice of the file handle. The result is the outcome of the method when it ends
  here, or else the state in which the downloads start: the trace so far, the handle
  to write to, the fulfilled identifiers and the URLs.
\<close>

definition fulfilled :: "RoutedRequest \<Rightarrow> bool" where
  "fulfilled r \<longleftrightarrow> str_contains ''Status: OK'' (StatusDescription r) \<and> Fulfillment r = 100"

definition retrieve_event :: "SudsClient \<Rightarrow> UserTokenType \<Rightarrow> string list \<Rightarrow> event" where
  "retrieve_event client usertoken request_ids =
     Rpc ''dataRetrieve'' (envelope_attrs client ''dataRetrieve'')
       (IdArgs usertoken request_ids)"

definition retrieve ::
  "world \<Rightarrow> SudsClient \<Rightarrow> UserTokenType \<Rightarrow> destination \<Rightarrow> RoutedRequest list
     \<Rightarrow> event list \<Rightarrow> outcome + (event list \<times> handle \<times> string list \<times> string list)" where
  "retrieve w client usertoken filename response tr =
     (let request_ids = map Id_attr (filter fulfilled response);
          tr1 = tr @ [retrieve_event client usertoken request_ids]
      in if request_ids = []
         then Inl \<lparr>trace = tr, returned = Inr (), client_after = client\<rparr>
         else
           (case dataRetrieve w request_ids of
              Inl e \<Rightarrow> Inl \<lparr>trace = tr1, returned = Inl e, client_after = client\<rparr>
            | Inr items \<Rightarrow>
                (case filename of
                   Path p \<Rightarrow>
                     (case open_file w p of
                        Some e \<Rightarrow>
                          Inl \<lparr>trace = tr1 @ [Open p], returned = Inl e,
                               client_after = client\<rparr>
                      | None \<Rightarrow>
                          Inr (tr1 @ [Open p], Opened p, request_ids, map DownloadURL items))
                 | FileObject h \<Rightarrow>
                     Inr (tr1, Supplied h, request_ids, map DownloadURL items)
                 | OtherObject \<Rightarrow>
                     Inl \<lparr>trace = tr1,
                          returned = Inl (TypeError
                            ''Parameter filename must be either string or file handler.''),
                          client_after = client\<rparr>)))"

text \<open>
  Lines 510 to 567, everything before the downloads. \<open>starttime\<close> and \<open>endtime\<close> are
  the two instants as \<open>UTCDateTime(...).strftime("%Y-%m-%dT%H:%M:%S")\<close> prints them
  (that class is not part of this file). The suds client is created inside the method,
  so it is not a parameter. The value is \<open>None\<close> when the status loop never ends,
  the outcome when the method ends before the downloads, and else the suds client with
  the state in which the downloads start.
\<close>

definition before_download ::
  "world \<Rightarrow> Client \<Rightarrow> destination \<Rightarrow> string \<Rightarrow> string \<Rightarrow> string \<Rightarrow> string
     \<Rightarrow> string \<Rightarrow> string \<Rightarrow> string
     \<Rightarrow> (outcome + (SudsClient \<times> event list \<times> handle \<times> string list \<times> string list)) option"
  where
  "before_download w self filename network station location channel starttime endtime format =
     (let client = new_SudsClient;
          usertoken = make_usertoken self;
          stationid = make_stationid network station location channel starttime endtime;
          client1 = (if format = ''MSEED'' then client\<lparr>plugins := [RequestMSEEDPlugin]\<rparr>
                     else client);
          attrs = envelope_attrs client1 ''dataRequest'';
          tr = [Rpc ''dataRequest'' attrs (StationArgs usertoken stationid)]
      in case dataRequest w attrs usertoken stationid of
           Inl e \<Rightarrow> Some (Inl \<lparr>trace = tr, returned = Inl e, client_after = client1\<rparr>)
         | Inr response \<Rightarrow>
             let client2 = (if format = ''MSEED'' then client1\<lparr>plugins := []\<rparr> else client1);
                 request_ids = map Id_attr response
             in if request_ids = []
                then Some (Inl \<lparr>trace = tr, returned = Inr (), client_after = client2\<rparr>)
                else
                  (case poll w client2 usertoken request_ids 0 tr of
                     None \<Rightarrow> None
                   | Some (tr1, Inl e) \<Rightarrow>
                       Some (Inl \<lparr>trace = tr1, returned = Inl e, client_after = client2\<rparr>)
                   | Some (tr1, Inr response1) \<Rightarrow>
                       (case retrieve w client2 usertoken filename response1 tr1 of
                          Inl out \<Rightarrow> Some (Inl out)
                        | Inr start \<Rightarrow> Some (Inr (client2, start)))))"

text \<open>
  Lines 568 and 569, \<open>for url in urls: fh.write(urllib2.urlopen(url).read())\<close>:
  the trace after the loop and the exception that ended it, if any.
\<close>

fun download :: "world \<Rightarrow> handle \<Rightarrow> string list \<Rightarrow> event list
                   \<Rightarrow> event list \<times> py_error option" where
  "download w fh [] tr = (tr, None)"
| "download w fh (url # urls) tr =
     (case urlopen w url of
        Inl e \<Rightarrow> (tr @ [UrlOpen url], Some e)
      | Inr payload \<Rightarrow> download w fh urls (tr @ [UrlOpen url, Write fh payload]))"

text \<open>
  Lines 568 to 573, the download phase: the downloads into the handle \<open>fh\<close>, the
  \<open>close\<close> of a handle that was opened for a file name, and the final \<open>purgeData\<close>.
\<close>

definition purge_event :: "SudsClient \<Rightarrow> UserTokenType \<Rightarrow> string list \<Rightarrow> event" where
  "purge_event client usertoken request_ids =
     Rpc ''purgeData'' (envelope_attrs client ''purgeData'') (IdArgs usertoken request_ids)"

definition write_and_purge ::
  "world \<Rightarrow> SudsClient \<Rightarrow> UserTokenType \<Rightarrow> destination \<Rightarrow> handle \<Rightarrow> string list
     \<Rightarrow> string list \<Rightarrow> event list \<Rightarrow> outcome" where
  "write_and_purge w client usertoken filename fh request_ids urls tr =
     (case download w fh urls tr of
        (tr1, Some e) \<Rightarrow> \<lparr>trace = tr1, returned = Inl e, client_after = client\<rparr>
      | (tr1, None) \<Rightarrow>
          \<lparr>trace = (case filename of Path p \<Rightarrow> tr1 @ [Close fh] | _ \<Rightarrow> tr1)
                     @ [purge_event client usertoken request_ids],
           returned = purgeData w request_ids,
           client_after = client\<rparr>)"

text \<open>The whole method, lines 510 to 573.\<close>

definition saveWaveform ::
  "world \<Rightarrow> Client \<Rightarrow> destination \<Rightarrow> string \<Rightarrow> string \<Rightarrow> string \<Rightarrow> string
     \<Rightarrow> string \<Rightarrow> string \<Rightarrow> string \<Rightarrow> outcome option" where
  "saveWaveform w self filename network station location channel starttime endtime format =
     (case before_download w self filename network station location channel
             starttime endtime format of
        None \<Rightarrow> None
      | Some (Inl out) \<Rightarrow> Some out
      | Some (Inr (client, tr, fh, request_ids, urls)) \<Rightarrow>
          Some (write_and_purge w client (make_usertoken self) filename fh
                  request_ids urls tr))"

subsection \<open>Observations on a trace\<close>

definition is_rpc :: "string \<Rightarrow> event \<Rightarrow> bool" where
  "is_rpc name ev = (case ev of Rpc m _ _ \<Rightarrow> m = name | _ \<Rightarrow> False)"

definition is_write :: "event \<Rightarrow> bool" where
  "is_write ev = (case ev of Write _ _ \<Rightarrow> True | _ \<Rightarrow> False)"

text \<open>The bytes that reached a file, in the order of the writes.\<close>

definition written :: "event list \<Rightarrow> string" where
  "written tr = concat (map (\<lambda>ev. case ev of Write _ b \<Rightarrow> b | _ \<Rightarrow> []) tr)"

definition is_close :: "event \<Rightarrow> bool" where
  "is_close ev = (case ev of Close _ \<Rightarrow> True | _ \<Rightarrow> False)"

text \<open>
  The attributes that the body of a \<open>dataRequest\<close> envelope carries for a requested
  format.
\<close>

definition request_attrs :: "string \<Rightarrow> attribute list" where
  "request_attrs format = (if format = ''MSEED'' then [(''DataFormat'', ''MSEED'')] else [])"

text \<open>The event of the \<open>dataRequest\<close> call of \<open>saveWaveform\<close>.\<close>

definition request_event ::
  "Client \<Rightarrow> string \<Rightarrow> string \<Rightarrow> string \<Rightarrow> string \<Rightarrow> string \<Rightarrow> string \<Rightarrow> string \<Rightarrow> event" where
  "request_event self network station location channel starttime endtime format =
     Rpc ''dataRequest'' (request_attrs format)
       (StationArgs (make_usertoken self)
          (make_stationid network station location channel starttime endtime))"

text \<open>The payload behind a URL that can be fetched.\<close>

definition payload :: "world \<Rightarrow> string \<Rightarrow> string" where
  "payload w url = (case urlopen w url of Inr b \<Rightarrow> b | Inl _ \<Rightarrow> [])"

definition fetched :: "world \<Rightarrow> string \<Rightarrow> bool" where
  "fetched w url = (case urlopen w url of Inr _ \<Rightarrow> True | Inl _ \<Rightarrow> False)"


subsection \<open>getWaveform\<close>

text \<open>
  \<open>read\<close> (the waveform reader of obspy.core, applied to the content of the temporary
  file) and the trimming of one trace are not part of this file and are parameters. A
  \<open>Stream\<close> is its list of traces, \<open>Stream()\<close> the empty list, and \<open>Stream.trim\<close>
  trims every trace, dropping a trace when \<open>trace_trim\<close> gives \<open>None\<close>. The temporary
  file \<open>tf\<close> is a file object that \<open>saveWaveform\<close> receives as its destination; it
  holds what was written to it. Closing and removing it afterwards does not change
  the value returned (a failure of \<open>os.remove\<close> is swallowed by the source).
\<close>

definition Stream_trim ::
  "('tr \<Rightarrow> string \<Rightarrow> string \<Rightarrow> 'tr option) \<Rightarrow> 'tr list \<Rightarrow> string \<Rightarrow> string \<Rightarrow> 'tr list" where
  "Stream_trim trace_trim stream starttime endtime =
     List.map_filter (\<lambda>t. trace_trim t starttime endtime) stream"

definition getWaveform ::
  "world \<Rightarrow> (string \<Rightarrow> py_error + 'tr list) \<Rightarrow> ('tr \<Rightarrow> string \<Rightarrow> string \<Rightarrow> 'tr option)
     \<Rightarrow> Client \<Rightarrow> nat \<Rightarrow> string \<Rightarrow> string \<Rightarrow> string \<Rightarrow> string \<Rightarrow> string \<Rightarrow> string
     \<Rightarrow> string \<Rightarrow> (py_error + 'tr list) option" where
  "getWaveform w read trace_trim self tf network station location channel
     starttime endtime format =
     (case saveWaveform w self (FileObject tf) network station location channel
             starttime endtime format of
        None \<Rightarrow> None
      | Some out \<Rightarrow>
          (case returned out of
             Inl e \<Rightarrow> Some (Inl e)
           | Inr _ \<Rightarrow>
               Some (Inr (Stream_trim trace_trim
                            (case read (written (trace out)) of
                               Inl _ \<Rightarrow> []
                             | Inr stream \<Rightarrow> stream)
                            starttime endtime))))"

subsection \<open>The event search: MAP, _mapKwargs, getEvents, _json2list\<close>

text \<open>
  The values that travel through the event search. A Python \<open>float\<close> is modelled as a
  real number: the only arithmetic the source does on it is negation, which is exact
  on floats.
\<close>

datatype pyval = PNone | PInt int | PFloat real | PStr string | PUTCDateTime real

text \<open>
  A Python \<open>dict\<close> is an association list with one entry for each key;
  \<open>d[k] = v\<close> is \<open>AList.update k v d\<close>, \<open>d.get(k)\<close> is \<open>map_of d k\<close>, and
  \<open>dict(pairs)\<close> stores the pairs one after the other.
\<close>

type_synonym 'v pydict = "(string \<times> 'v) list"

definition py_dict :: "(string \<times> 'v) list \<Rightarrow> 'v pydict" where
  "py_dict pairs = foldl (\<lambda>d (k, v). AList.update k v d) [] pairs"

definition MAP :: "string pydict" where
  "MAP = [(''min_datetime'', ''dateMin''), (''max_datetime'', ''dateMax''),
          (''min_latitude'', ''latMin''), (''max_latitude'', ''latMax''),
          (''min_longitude'', ''lonMin''), (''max_longitude'', ''lonMax''),
          (''min_depth'', ''depthMin''), (''max_depth'', ''depthMax''),
          (''min_magnitude'', ''magMin''), (''max_magnitude'', ''magMax''),
          (''magnitude_type'', ''magType''), (''author'', ''auth''),
          (''max_results'', ''limit''), (''sort_by'', ''sort''), (''sort_direction'', ''dir''),
          (''format'', ''format''), (''datetime'', ''datetime''), (''depth'', ''depth''),
          (''flynn_region'', ''flynn_region''), (''latitude'', ''lat''),
          (''longitude'', ''lon''), (''magnitude'', ''mag''), (''origin_id'', ''orid''),
          (''event_id'', ''unid'')]"

definition MAP_INVERSE :: "string pydict" where
  "MAP_INVERSE =
     AList.update ''magtype'' ''magnitude_type'' (py_dict (map (\<lambda>(key, value). (value, key)) MAP))"

text \<open>Truth value, unary minus, \<open>float(...)\<close> and \<open>str.lower\<close> of Python.\<close>

fun py_truth :: "pyval \<Rightarrow> bool" where
  "py_truth PNone = False"
| "py_truth (PInt i) = (i \<noteq> 0)"
| "py_truth (PFloat r) = (r \<noteq> 0)"
| "py_truth (PStr s) = (s \<noteq> [])"
| "py_truth (PUTCDateTime t) = True"

fun py_neg :: "pyval \<Rightarrow> py_error + pyval" where
  "py_neg (PInt i) = Inr (PInt (- i))"
| "py_neg (PFloat r) = Inr (PFloat (- r))"
| "py_neg v = Inl (TypeError ''bad operand type for unary -'')"

fun py_float :: "(string \<Rightarrow> real option) \<Rightarrow> pyval \<Rightarrow> py_error + pyval" where
  "py_float str_to_float (PInt i) = Inr (PFloat (of_int i))"
| "py_float str_to_float (PFloat r) = Inr (PFloat r)"
| "py_float str_to_float (PStr s) =
     (case str_to_float s of
        None \<Rightarrow> Inl (ValueError ''invalid literal for float()'')
      | Some r \<Rightarrow> Inr (PFloat r))"
| "py_float str_to_float v = Inl (TypeError ''float() argument must be a string or a number'')"

definition lower_char :: "char \<Rightarrow> char" where
  "lower_char c =
     (if 65 \<le> (of_char c :: nat) \<and> (of_char c :: nat) \<le> 90
      then char_of (of_char c + 32 :: nat) else c)"

fun py_lower :: "pyval \<Rightarrow> py_error + pyval" where
  "py_lower (PStr s) = Inr (PStr (map lower_char s))"
| "py_lower v = Inl (AttributeError ''lower'')"

text \<open>
  Lines 61 to 69, the wrapper of \<open>_mapKwargs\<close>: the keyword arguments of the caller
  are renamed through \<open>MAP\<close> on top of four defaults, and a key that is not in \<open>MAP\<close> is
  skipped. \<open>map_step\<close> is one turn of the loop \<open>for key in kwargs\<close>.
\<close>

definition new_kwargs_default :: "pyval pydict" where
  "new_kwargs_default =
     [(''sort'', PStr ''datetime''), (''dir'', PStr ''ASC''), (''limit'', PInt 100),
      (''format'', PStr ''list'')]"

fun map_step :: "pyval pydict \<Rightarrow> string \<times> pyval \<Rightarrow> pyval pydict" where
  "map_step new_kwargs (key, v) =
     (case map_of MAP key of
        Some remote \<Rightarrow> AList.update remote v new_kwargs
      | None \<Rightarrow> new_kwargs)"

definition mapKwargs :: "pyval pydict \<Rightarrow> pyval pydict" where
  "mapKwargs kwargs = foldl map_step new_kwargs_default kwargs"

text \<open>
  The call \<open>f(*args, **new_kwargs)\<close> of \<open>getEvents\<close>. The method has sixteen named
  parameters after \<open>self\<close>, the last of them \<open>format\<close>; of the keys of
  \<open>new_kwargs\<close> only \<open>format\<close> is the name of a parameter, and it is always present, so
  sixteen or more positional arguments raise a \<open>TypeError\<close>. The other keys are
  collected in \<open>**kwargs\<close>, and the positional arguments land in parameters that the
  body never reads.
\<close>

definition bind_getEvents ::
  "pyval list \<Rightarrow> pyval pydict \<Rightarrow> py_error + (pyval \<times> pyval pydict)" where
  "bind_getEvents args new_kwargs =
     (if 16 \<le> length args then Inl (TypeError ''getEvents() argument mismatch'')
      else case map_of new_kwargs ''format'' of
             None \<Rightarrow> Inr (PStr ''list'', new_kwargs)
           | Some format \<Rightarrow> Inr (format, AList.delete ''format'' new_kwargs))"

text \<open>Lines 249 to 252: \<open>if kwargs.get(key): kwargs[key] = -kwargs[key]\<close>.\<close>

definition negate_if_set :: "string \<Rightarrow> pyval pydict \<Rightarrow> py_error + pyval pydict" where
  "negate_if_set key kwargs =
     (case map_of kwargs key of
        None \<Rightarrow> Inr kwargs
      | Some v \<Rightarrow>
          if py_truth v
          then (case py_neg v of
                  Inl e \<Rightarrow> Inl e
                | Inr v' \<Rightarrow> Inr (AList.update key v' kwargs))
          else Inr kwargs)"

text \<open>
  Lines 245 to 252 behind the wrapper: the parameters that \<open>getEvents\<close> hands to
  \<open>_fetch\<close>, with the value of \<open>format\<close>.
\<close>

definition getEvents_query ::
  "pyval list \<Rightarrow> pyval pydict \<Rightarrow> py_error + (pyval \<times> pyval pydict)" where
  "getEvents_query args kwargs0 =
     (case bind_getEvents args (mapKwargs kwargs0) of
        Inl e \<Rightarrow> Inl e
      | Inr (format, kwargs) \<Rightarrow>
          (case negate_if_set ''depthMin''
                  (if format = PStr ''list''
                   then AList.update ''format'' (PStr ''json'') kwargs else kwargs) of
             Inl e \<Rightarrow> Inl e
           | Inr kwargs2 \<Rightarrow>
               (case negate_if_set ''depthMax'' kwargs2 of
                  Inl e \<Rightarrow> Inl e
                | Inr kwargs3 \<Rightarrow> Inr (format, kwargs3))))"

text \<open>
  The value that \<open>getEvents\<close> sends for a depth bound: the negated value when the
  bound is true in the sense of Python, the value itself otherwise.
\<close>

definition sent_depth :: "pyval \<Rightarrow> pyval" where
  "sent_depth v =
     (if py_truth v then (case py_neg v of Inr v' \<Rightarrow> v' | Inl _ \<Rightarrow> v) else v)"

text \<open>
  What lies outside this file: \<open>json.loads\<close> (a document is the dictionary of its
  top-level lists of records), the parser of a float literal, the constructor
  \<open>UTCDateTime\<close>, and the HTTP request behind \<open>_fetch\<close>.
\<close>

record runtime =
  json_loads :: "string \<Rightarrow> py_error + (pyval pydict list) pydict"
  str_to_float :: "string \<Rightarrow> real option"
  UTCDateTime :: "pyval \<Rightarrow> py_error + real"
  fetch :: "string \<Rightarrow> pyval pydict \<Rightarrow> py_error + string"

text \<open>Line 159: \<open>[(MAP_INVERSE[k], v) for k, v in result.iteritems()]\<close>.\<close>

fun inverse_items :: "pyval pydict \<Rightarrow> py_error + (string \<times> pyval) list" where
  "inverse_items [] = Inr []"
| "inverse_items ((k, v) # kvs) =
     (case map_of MAP_INVERSE k of
        None \<Rightarrow> Inl (KeyError k)
      | Some k' \<Rightarrow>
          (case inverse_items kvs of
             Inl e \<Rightarrow> Inl e
           | Inr items \<Rightarrow> Inr ((k', v) # items)))"

text \<open>\<open>event[k] = f(event[k])\<close> for a conversion \<open>f\<close> that may raise.\<close>

definition convert_key ::
  "(pyval \<Rightarrow> py_error + pyval) \<Rightarrow> string \<Rightarrow> pyval pydict \<Rightarrow> py_error + pyval pydict" where
  "convert_key f k event =
     (case map_of event k of
        None \<Rightarrow> Inl (KeyError k)
      | Some v \<Rightarrow>
          (case f v of
             Inl e \<Rightarrow> Inl e
           | Inr v' \<Rightarrow> Inr (AList.update k v' event)))"

text \<open>Lines 161 and 162: \<open>for k in float_keys: event[k] = float(event[k])\<close>.\<close>

fun float_keys_loop ::
  "(string \<Rightarrow> real option) \<Rightarrow> string list \<Rightarrow> pyval pydict \<Rightarrow> py_error + pyval pydict" where
  "float_keys_loop stf [] event = Inr event"
| "float_keys_loop stf (k # ks) event =
     (case convert_key (py_float stf) k event of
        Inl e \<Rightarrow> Inl e
      | Inr event' \<Rightarrow> float_keys_loop stf ks event')"

definition float_keys :: "string list" where
  "float_keys = [''depth'', ''latitude'', ''longitude'', ''magnitude'']"

text \<open>Lines 159 to 166: one record of the answer becomes one event.\<close>

definition json2event :: "runtime \<Rightarrow> pyval pydict \<Rightarrow> py_error + pyval pydict" where
  "json2event rt result =
     (case inverse_items result of
        Inl e \<Rightarrow> Inl e
      | Inr items \<Rightarrow>
          (case float_keys_loop (str_to_float rt) float_keys (py_dict items) of
             Inl e \<Rightarrow> Inl e
           | Inr event1 \<Rightarrow>
               (case convert_key py_lower ''magnitude_type'' event1 of
                  Inl e \<Rightarrow> Inl e
                | Inr event2 \<Rightarrow>
                    (case convert_key
                            (\<lambda>v. case UTCDateTime rt v of
                                   Inl e \<Rightarrow> Inl e
                                 | Inr t \<Rightarrow> Inr (PUTCDateTime t))
                            ''datetime'' event2 of
                       Inl e \<Rightarrow> Inl e
                     | Inr event3 \<Rightarrow> convert_key py_neg ''depth'' event3))))"

fun json2list_loop :: "runtime \<Rightarrow> pyval pydict list \<Rightarrow> py_error + pyval pydict list" where
  "json2list_loop rt [] = Inr []"
| "json2list_loop rt (result # results) =
     (case json2event rt result of
        Inl e \<Rightarrow> Inl e
      | Inr event \<Rightarrow>
          (case json2list_loop rt results of
             Inl e \<Rightarrow> Inl e
           | Inr events \<Rightarrow> Inr (event # events)))"

definition json2list :: "runtime \<Rightarrow> string \<Rightarrow> py_error + pyval pydict list" where
  "json2list rt data =
     (case json_loads rt data of
        Inl e \<Rightarrow> Inl e
      | Inr results \<Rightarrow>
          (case map_of results ''unids'' of
             None \<Rightarrow> Inl (KeyError ''unids'')
           | Some unids \<Rightarrow> json2list_loop rt unids))"

datatype events_result = EventList "pyval pydict list" | Document string

definition getEvents :: "runtime \<Rightarrow> pyval list \<Rightarrow> pyval pydict \<Rightarrow> py_error + events_result" where
  "getEvents rt args kwargs0 =
     (case getEvents_query args kwargs0 of
        Inl e \<Rightarrow> Inl e
      | Inr (format, kwargs) \<Rightarrow>
          (case fetch rt ''/services/event/search'' kwargs of
             Inl e \<Rightarrow> Inl e
           | Inr data \<Rightarrow>
               if format = PStr ''list''
               then (case json2list rt data of
                       Inl e \<Rightarrow> Inl e
                     | Inr events \<Rightarrow> Inr (EventList events))
               else Inr (Document data)))"

subsection \<open>Scripted worlds for concrete runs\<close>

definition demo_self :: Client where
  "demo_self = \<lparr>user = ''test@obspy.org'', password = [], user_agent = ''ObsPy 0.4.7''\<rparr>"

definition routed :: "string \<Rightarrow> string \<Rightarrow> string \<Rightarrow> int \<Rightarrow> RoutedRequest" where
  "routed i flag description percent =
     \<lparr>Id_attr = i, ReadyFlag = flag, StatusDescription = description, Fulfillment = percent\<rparr>"

text \<open>
  Three routed requests \<open>A\<close>, \<open>B\<close> and \<open>C\<close>. \<open>A\<close> and \<open>C\<close> are ready at the first
  status check and \<open>B\<close> at the third; \<open>A\<close> and \<open>B\<close> end fulfilled, \<open>C\<close> ends at 80
  percent. The retrieval gives two URLs with the payloads \<open>abc\<close> and \<open>def\<close>.
\<close>

definition demo_status :: "nat \<Rightarrow> RoutedRequest list" where
  "demo_status n =
     (if n < 2
      then [routed ''A'' ''true'' ''Status: OK'' 100, routed ''B'' ''false'' ''Status: WAIT'' 50,
            routed ''C'' ''true'' ''Status: OK'' 80]
      else [routed ''A'' ''true'' ''Status: OK'' 100, routed ''B'' ''true'' ''Status: OK'' 100,
            routed ''C'' ''true'' ''Status: OK'' 80])"

definition demo_world :: world where
  "demo_world =
     \<lparr>dataRequest = (\<lambda>attrs usertoken stationid.
        Inr [routed ''A'' ''false'' [] 0, routed ''B'' ''false'' [] 0,
             routed ''C'' ''false'' [] 0]),
      checkStatus = (\<lambda>n ids. Inr (demo_status n)),
      dataRetrieve = (\<lambda>ids. Inr [\<lparr>DownloadURL = ''u1''\<rparr>, \<lparr>DownloadURL = ''u2''\<rparr>]),
      purgeData = (\<lambda>ids. Inr ()),
      urlopen = (\<lambda>url. if url = ''u1'' then Inr ''abc''
                        else if url = ''u2'' then Inr ''def''
                        else Inl (URLError ''not found'')),
      open_file = (\<lambda>p. None)\<rparr>"

text \<open>The same service when no station matches the request.\<close>

definition no_routes_world :: world where
  "no_routes_world = demo_world\<lparr>dataRequest := (\<lambda>attrs usertoken stationid. Inr [])\<rparr>"

text \<open>The same service when the second download fails, and when the purge fails.\<close>

definition broken_download_world :: world where
  "broken_download_world =
     demo_world\<lparr>urlopen := (\<lambda>url. if url = ''u1'' then Inr ''abc''
                                  else Inl (URLError ''timed out''))\<rparr>"

definition broken_purge_world :: world where
  "broken_purge_world = demo_world\<lparr>purgeData := (\<lambda>ids. Inl (SoapFault ''purge failed''))\<rparr>"

text \<open>The same service when it refuses the request itself.\<close>

definition broken_request_world :: world where
  "broken_request_world =
     demo_world\<lparr>dataRequest := (\<lambda>attrs usertoken stationid.
                                   Inl (SoapFault ''request refused''))\<rparr>"

text \<open>The arguments of the runs below.\<close>

definition demo_run :: "world \<Rightarrow> destination \<Rightarrow> string \<Rightarrow> outcome option" where
  "demo_run w filename format =
     saveWaveform w demo_self filename ''NL'' ''WIT'' [] ''BH*''
       ''2009-04-01T00:00:00'' ''2009-04-01T00:00:30'' format"

definition demo_token :: UserTokenType where
  "demo_token = \<lparr>email = ''test@obspy.org'', token_password = [],
                  label = ''ObsPy_0.4.7'', token_locale = []\<rparr>"

definition demo_station :: StationIdentifierType where
  "demo_station = \<lparr>NetworkCode = ''NL'', StationCode = ''WIT'', ChannelCode = ''BH*'',
                    LocId = [], beginPosition = ''2009-04-01T00:00:00'',
                    endPosition = ''2009-04-01T00:00:30''\<rparr>"

text \<open>The trace of a run against the scripted service up to the retrieval.\<close>

definition demo_prefix :: "string \<Rightarrow> event list" where
  "demo_prefix format =
     [Rpc ''dataRequest'' (request_attrs format) (StationArgs demo_token demo_station),
      Rpc ''checkStatus'' [] (IdArgs demo_token [''A'', ''B'', ''C'']),
      Rpc ''checkStatus'' [] (IdArgs demo_token [''A'', ''B'', ''C'']),
      Rpc ''checkStatus'' [] (IdArgs demo_token [''A'', ''B'', ''C'']),
      Rpc ''dataRetrieve'' [] (IdArgs demo_token [''A'', ''B''])]"

text \<open>
  A record as the event service sends it (depth positive down) and a runtime that
  answers every request with the document holding this one record.
\<close>

definition demo_record :: "pyval pydict" where
  "demo_record =
     [(''unid'', PStr ''20041226_0000148''), (''orid'', PInt 127773), (''auth'', PStr ''CSEM''),
      (''lat'', PFloat 3), (''lon'', PFloat 95), (''depth'', PInt 10), (''mag'', PFloat 9),
      (''magtype'', PStr ''Mw''), (''datetime'', PStr ''2004-12-26T00:58:50Z''),
      (''flynn_region'', PStr ''SUMATRA'')]"

definition demo_runtime :: runtime where
  "demo_runtime =
     \<lparr>json_loads = (\<lambda>data. Inr [(''unids'', [demo_record])]),
      str_to_float = (\<lambda>s. None),
      UTCDateTime = (\<lambda>v. Inr 1104022730),
      fetch = (\<lambda>url params. Inr ''{}'')\<rparr>"

section \<open>Properties\<close>

subsection \<open>The envelope attributes and the status loop\<close>

lemma envelope_attrs_empty: "envelope_attrs \<lparr>plugins = []\<rparr> name = []"
  by (simp add: envelope_attrs_def)

lemma envelope_attrs_MSEED:
  "envelope_attrs \<lparr>plugins = [RequestMSEEDPlugin]\<rparr> name =
     (if name = ''dataRequest'' then [(''DataFormat'', ''MSEED'')] else [])"
  by (simp add: envelope_attrs_def)

lemma poll_exit:
  assumes "checkStatus w (n + k) ids = Inr response"
    and "''false'' \<notin> set (map ReadyFlag response)"
    and "\<forall>j<k. \<exists>resp. checkStatus w (n + j) ids = Inr resp \<and> ''false'' \<in> set (map ReadyFlag resp)"
  shows "poll w client tok ids n tr =
           Some (tr @ replicate (Suc k) (check_event client tok ids), Inr response)"
  using assms
proof (induction k arbitrary: n tr)
  case 0
  then show ?case by (subst poll.simps) simp
next
  case (Suc k)
  from Suc.prems(3) obtain resp where r: "checkStatus w n ids = Inr resp"
    "''false'' \<in> set (map ReadyFlag resp)" by force
  have "poll w client tok ids (Suc n) (tr @ [check_event client tok ids]) =
          Some ((tr @ [check_event client tok ids]) @ replicate (Suc k) (check_event client tok ids),
                Inr response)"
  proof (rule Suc.IH)
    show "checkStatus w (Suc n + k) ids = Inr response" using Suc.prems(1) by simp
    show "''false'' \<notin> set (map ReadyFlag response)" by (rule Suc.prems(2))
    show "\<forall>j<k. \<exists>resp. checkStatus w (Suc n + j) ids = Inr resp
             \<and> ''false'' \<in> set (map ReadyFlag resp)"
    proof (intro allI impI)
      fix j assume "j < k"
      then have "Suc j < Suc k" by simp
      with Suc.prems(3) have "\<exists>resp. checkStatus w (n + Suc j) ids = Inr resp
             \<and> ''false'' \<in> set (map ReadyFlag resp)" by blast
      then show "\<exists>resp. checkStatus w (Suc n + j) ids = Inr resp
             \<and> ''false'' \<in> set (map ReadyFlag resp)" by simp
    qed
  qed
  then show ?case using r by (subst poll.simps) (simp add: replicate_append_same)
qed

lemma poll_error:
  assumes "checkStatus w (n + k) ids = Inl e"
    and "\<forall>j<k. \<exists>resp. checkStatus w (n + j) ids = Inr resp \<and> ''false'' \<in> set (map ReadyFlag resp)"
  shows "poll w client tok ids n tr =
           Some (tr @ replicate (Suc k) (check_event client tok ids), Inl e)"
  using assms
proof (induction k arbitrary: n tr)
  case 0
  then show ?case by (subst poll.simps) simp
next
  case (Suc k)
  from Suc.prems(2) obtain resp where r: "checkStatus w n ids = Inr resp"
    "''false'' \<in> set (map ReadyFlag resp)" by force
  have "poll w client tok ids (Suc n) (tr @ [check_event client tok ids]) =
          Some ((tr @ [check_event client tok ids]) @ replicate (Suc k) (check_event client tok ids),
                Inl e)"
  proof (rule Suc.IH)
    show "checkStatus w (Suc n + k) ids = Inl e" using Suc.prems(1) by simp
    show "\<forall>j<k. \<exists>resp. checkStatus w (Suc n + j) ids = Inr resp
             \<and> ''false'' \<in> set (map ReadyFlag resp)"
    proof (intro allI impI)
      fix j assume "j < k"
      then have "Suc j < Suc k" by simp
      with Suc.prems(2) have "\<exists>resp. checkStatus w (n + Suc j) ids = Inr resp
             \<and> ''false'' \<in> set (map ReadyFlag resp)" by blast
      then show "\<exists>resp. checkStatus w (Suc n + j) ids = Inr resp
             \<and> ''false'' \<in> set (map ReadyFlag resp)" by simp
    qed
  qed
  then show ?case using r by (subst poll.simps) (simp add: replicate_append_same)
qed

lemma poll_Some:
  assumes "poll w client tok ids n tr = Some res"
  shows "\<exists>k. (\<forall>j<k. \<exists>resp. checkStatus w (n + j) ids = Inr resp
                   \<and> ''false'' \<in> set (map ReadyFlag resp))
           \<and> fst res = tr @ replicate (Suc k) (check_event client tok ids)
           \<and> ((\<exists>response. checkStatus w (n + k) ids = Inr response
                  \<and> ''false'' \<notin> set (map ReadyFlag response) \<and> snd res = Inr response)
              \<or> (\<exists>e. checkStatus w (n + k) ids = Inl e \<and> snd res = Inl e))"
proof -
  let ?P = "\<lambda>w client tok ids n tr res.
     \<exists>k. (\<forall>j<k. \<exists>resp. checkStatus w (n + j) ids = Inr resp
                   \<and> ''false'' \<in> set (map ReadyFlag resp))
           \<and> fst res = tr @ replicate (Suc k) (check_event client tok ids)
           \<and> ((\<exists>response. checkStatus w (n + k) ids = Inr response
                  \<and> ''false'' \<notin> set (map ReadyFlag response) \<and> snd res = Inr response)
              \<or> (\<exists>e. checkStatus w (n + k) ids = Inl e \<and> snd res = Inl e))"
  have "?P w client tok ids n tr res"
  proof (rule poll.raw_induct[where P = ?P, OF _ assms])
    fix poll' :: "world \<Rightarrow> SudsClient \<Rightarrow> UserTokenType \<Rightarrow> string list \<Rightarrow> nat \<Rightarrow> event list \<Rightarrow> (event list \<times> (py_error + RoutedRequest list)) option"
      and w client tok ids n tr res
    assume IH: "\<And>w client tok ids n tr res.
                  poll' w client tok ids n tr = Some res \<Longrightarrow> ?P w client tok ids n tr res"
    assume body: "(case checkStatus w n ids of
        Inl e \<Rightarrow> Some (tr @ [check_event client tok ids], Inl e)
      | Inr response \<Rightarrow>
          if ''false'' \<in> set (map ReadyFlag response)
          then poll' w client tok ids (Suc n) (tr @ [check_event client tok ids])
          else Some (tr @ [check_event client tok ids], Inr response)) = Some res"
    show "?P w client tok ids n tr res"
    proof (cases "checkStatus w n ids")
      case (Inl e)
      with body have "res = (tr @ [check_event client tok ids], Inl e)" by simp
      with Inl show ?thesis by (intro exI[of _ 0]) simp
    next
      case (Inr resp)
      show ?thesis
      proof (cases "''false'' \<in> set (map ReadyFlag resp)")
        case False
        with Inr body have "res = (tr @ [check_event client tok ids], Inr resp)" by simp
        with Inr False show ?thesis by (intro exI[of _ 0]) simp
      next
        case True
        with Inr body
        have "poll' w client tok ids (Suc n) (tr @ [check_event client tok ids]) = Some res"
          by simp
        from IH[OF this] obtain k where k:
          "\<forall>j<k. \<exists>resp. checkStatus w (Suc n + j) ids = Inr resp
                     \<and> ''false'' \<in> set (map ReadyFlag resp)"
          "fst res = (tr @ [check_event client tok ids])
                       @ replicate (Suc k) (check_event client tok ids)"
          "(\<exists>response. checkStatus w (Suc n + k) ids = Inr response
                    \<and> ''false'' \<notin> set (map ReadyFlag response) \<and> snd res = Inr response)
                \<or> (\<exists>e. checkStatus w (Suc n + k) ids = Inl e \<and> snd res = Inl e)"
          by (elim exE conjE) 
        have "\<forall>j<Suc k. \<exists>resp. checkStatus w (n + j) ids = Inr resp
                     \<and> ''false'' \<in> set (map ReadyFlag resp)"
        proof (intro allI impI)
          fix j assume j: "j < Suc k"
          show "\<exists>resp. checkStatus w (n + j) ids = Inr resp
                     \<and> ''false'' \<in> set (map ReadyFlag resp)"
          proof (cases j)
            case 0
            with Inr True show ?thesis by simp
          next
            case (Suc i)
            with j have "i < k" by simp
            with k(1) Suc show ?thesis by simp
          qed
        qed
        moreover have "fst res = tr @ replicate (Suc (Suc k)) (check_event client tok ids)"
          using k(2) by (simp add: replicate_append_same)
        moreover have "(\<exists>response. checkStatus w (n + Suc k) ids = Inr response
                    \<and> ''false'' \<notin> set (map ReadyFlag response) \<and> snd res = Inr response)
                \<or> (\<exists>e. checkStatus w (n + Suc k) ids = Inl e \<and> snd res = Inl e)"
          using k(3) by simp
        ultimately show ?thesis by (intro exI[of _ "Suc k"] conjI)
      qed
    qed
  qed
  then show ?thesis .
qed

subsection \<open>An empty answer to the request\<close>

text \<open>
  C4. When the answer to \<open>dataRequest\<close> holds no routed request, \<open>saveWaveform\<close>
  returns at once and without an error: its trace is the one \<open>dataRequest\<close> call, so
  there is no status check, no retrieval, no purge, and nothing is opened or written.
\<close>

theorem saveWaveform_no_routes:
  assumes "dataRequest w (request_attrs format) (make_usertoken self)
             (make_stationid network station location channel starttime endtime) = Inr []"
  shows "\<exists>out. saveWaveform w self filename network station location channel
                  starttime endtime format = Some out
           \<and> returned out = Inr ()
           \<and> trace out = [Rpc ''dataRequest'' (request_attrs format)
                            (StationArgs (make_usertoken self)
                               (make_stationid network station location channel
                                  starttime endtime))]
           \<and> filter (is_rpc ''checkStatus'') (trace out) = []
           \<and> filter (is_rpc ''dataRetrieve'') (trace out) = []
           \<and> filter (is_rpc ''purgeData'') (trace out) = []
           \<and> filter is_write (trace out) = []
           \<and> written (trace out) = []"
  using assms
  by (cases "format = ''MSEED''")
     (simp_all add: saveWaveform_def before_download_def Let_def envelope_attrs_MSEED
        envelope_attrs_empty new_SudsClient_def is_rpc_def is_write_def written_def
        request_attrs_def)

theorem saveWaveform_no_routes_witness:
  "dataRequest no_routes_world (request_attrs ''MSEED'') (make_usertoken demo_self)
     (make_stationid ''NL'' ''WIT'' [] ''BH*'' ''2009-04-01T00:00:00'' ''2009-04-01T00:00:30'')
     = Inr []
   \<and> (\<exists>out. saveWaveform no_routes_world demo_self (Path ''outfile.mseed'') ''NL'' ''WIT'' []
              ''BH*'' ''2009-04-01T00:00:00'' ''2009-04-01T00:00:30'' ''MSEED'' = Some out
          \<and> returned out = Inr ()
          \<and> filter (is_rpc ''checkStatus'') (trace out) = []
          \<and> filter (is_rpc ''dataRetrieve'') (trace out) = []
          \<and> filter (is_rpc ''purgeData'') (trace out) = []
          \<and> written (trace out) = [])"
proof -
  have h: "dataRequest no_routes_world (request_attrs ''MSEED'') (make_usertoken demo_self)
     (make_stationid ''NL'' ''WIT'' [] ''BH*'' ''2009-04-01T00:00:00'' ''2009-04-01T00:00:30'')
     = Inr []"
    by (simp add: no_routes_world_def)
  from saveWaveform_no_routes [OF h, of "Path ''outfile.mseed''"] h show ?thesis by blast
qed

subsection \<open>The stages of saveWaveform\<close>

lemma before_download_unfold:
  "before_download w self filename network station location channel starttime endtime format =
     (case dataRequest w (request_attrs format) (make_usertoken self)
             (make_stationid network station location channel starttime endtime) of
        Inl e \<Rightarrow>
          Some (Inl \<lparr>trace = [request_event self network station location channel
                                 starttime endtime format],
                     returned = Inl e,
                     client_after = \<lparr>plugins = (if format = ''MSEED'' then [RequestMSEEDPlugin]
                                                  else [])\<rparr>\<rparr>)
      | Inr response \<Rightarrow>
          if response = []
          then Some (Inl \<lparr>trace = [request_event self network station location channel
                                      starttime endtime format],
                          returned = Inr (), client_after = \<lparr>plugins = []\<rparr>\<rparr>)
          else
            (case poll w \<lparr>plugins = []\<rparr> (make_usertoken self) (map Id_attr response) 0
                    [request_event self network station location channel
                       starttime endtime format] of
               None \<Rightarrow> None
             | Some (tr1, Inl e) \<Rightarrow>
                 Some (Inl \<lparr>trace = tr1, returned = Inl e, client_after = \<lparr>plugins = []\<rparr>\<rparr>)
             | Some (tr1, Inr response1) \<Rightarrow>
                 (case retrieve w \<lparr>plugins = []\<rparr> (make_usertoken self) filename
                         response1 tr1 of
                    Inl out \<Rightarrow> Some (Inl out)
                  | Inr start \<Rightarrow> Some (Inr (\<lparr>plugins = []\<rparr>, start)))))"
  by (cases "format = ''MSEED''")
     (simp_all add: before_download_def Let_def envelope_attrs_MSEED envelope_attrs_empty
        new_SudsClient_def request_attrs_def request_event_def
        split: sum.split option.split prod.split)

lemma download_ok:
  "\<forall>u\<in>set urls. fetched w u \<Longrightarrow>
   download w fh urls tr =
     (tr @ concat (map (\<lambda>u. [UrlOpen u, Write fh (payload w u)]) urls), None)"
  by (induction urls arbitrary: tr) (auto simp: fetched_def payload_def split: sum.splits)

lemma download_takeWhile:
  "download w fh urls tr =
     (tr @ concat (map (\<lambda>u. [UrlOpen u, Write fh (payload w u)]) (takeWhile (fetched w) urls))
         @ (case dropWhile (fetched w) urls of [] \<Rightarrow> [] | u # _ \<Rightarrow> [UrlOpen u]),
      case dropWhile (fetched w) urls of
        [] \<Rightarrow> None
      | u # _ \<Rightarrow> (case urlopen w u of Inl e \<Rightarrow> Some e | Inr _ \<Rightarrow> None))"
  by (induction urls arbitrary: tr) (auto simp: fetched_def payload_def split: sum.splits)

lemma retrieve_Inr:
  assumes "retrieve w client tok filename response tr = Inr (tr', fh, ids, urls)"
  shows "ids = map Id_attr (filter fulfilled response) \<and> ids \<noteq> []
       \<and> (\<exists>items. dataRetrieve w ids = Inr items \<and> urls = map DownloadURL items)
       \<and> ((\<exists>p. filename = Path p \<and> open_file w p = None \<and> fh = Opened p
                \<and> tr' = tr @ [retrieve_event client tok ids, Open p])
          \<or> (\<exists>h. filename = FileObject h \<and> fh = Supplied h
                \<and> tr' = tr @ [retrieve_event client tok ids]))"
  using assms
  by (auto simp: retrieve_def Let_def split: if_splits sum.splits destination.splits option.splits)

lemma retrieve_Inl:
  assumes "retrieve w client tok filename response tr = Inl out"
  shows "client_after out = client
       \<and> ((trace out = tr \<and> returned out = Inr ())
          \<or> (\<exists>e. returned out = Inl e
                \<and> (trace out = tr @ [retrieve_event client tok (map Id_attr (filter fulfilled response))]
                   \<or> (\<exists>p. filename = Path p
                        \<and> trace out = tr @ [retrieve_event client tok
                                               (map Id_attr (filter fulfilled response)), Open p]))))"
  using assms
  by (auto simp: retrieve_def Let_def split: if_splits sum.splits destination.splits option.splits)

lemma write_and_purge_ok:
  assumes "\<forall>u\<in>set urls. fetched w u"
  shows "write_and_purge w client tok filename fh ids urls tr =
           \<lparr>trace = tr @ concat (map (\<lambda>u. [UrlOpen u, Write fh (payload w u)]) urls)
                       @ (case filename of Path p \<Rightarrow> [Close fh] | _ \<Rightarrow> [])
                       @ [purge_event client tok ids],
            returned = purgeData w ids, client_after = client\<rparr>"
  using assms
  by (simp add: write_and_purge_def download_ok split: destination.split)

lemma write_and_purge_fails:
  assumes "\<not> (\<forall>u\<in>set urls. fetched w u)"
  shows "\<exists>u e. u \<in> set urls \<and> urlopen w u = Inl e
           \<and> write_and_purge w client tok filename fh ids urls tr =
               \<lparr>trace = tr @ concat (map (\<lambda>u. [UrlOpen u, Write fh (payload w u)])
                                       (takeWhile (fetched w) urls)) @ [UrlOpen u],
                returned = Inl e, client_after = client\<rparr>"
proof -
  from assms have "dropWhile (fetched w) urls \<noteq> []" by simp
  then obtain u rest where d: "dropWhile (fetched w) urls = u # rest"
    by (cases "dropWhile (fetched w) urls") auto
  then have "\<not> fetched w u" by (metis hd_dropWhile list.sel(1) list.discI)
  then obtain e where e: "urlopen w u = Inl e"
    by (auto simp: fetched_def split: sum.splits)
  have "u \<in> set (dropWhile (fetched w) urls)" using d by simp
  then have "u \<in> set urls" by (rule set_dropWhileD)
  with d e show ?thesis
    by (simp add: write_and_purge_def download_takeWhile)
qed

lemma before_download_Inr:
  assumes "before_download w self filename network station location channel
             starttime endtime format = Some (Inr (client, tr, fh, ids, urls))"
  shows "client = \<lparr>plugins = []\<rparr>
       \<and> (\<exists>response0 response1 k.
            dataRequest w (request_attrs format) (make_usertoken self)
              (make_stationid network station location channel starttime endtime) = Inr response0
          \<and> response0 \<noteq> []
          \<and> checkStatus w k (map Id_attr response0) = Inr response1
          \<and> ''false'' \<notin> set (map ReadyFlag response1)
          \<and> (\<forall>j<k. \<exists>resp. checkStatus w j (map Id_attr response0) = Inr resp
                        \<and> ''false'' \<in> set (map ReadyFlag resp))
          \<and> ids = map Id_attr (filter fulfilled response1) \<and> ids \<noteq> []
          \<and> (\<exists>items. dataRetrieve w ids = Inr items \<and> urls = map DownloadURL items)
          \<and> ((\<exists>p. filename = Path p \<and> open_file w p = None \<and> fh = Opened p
                 \<and> tr = request_event self network station location channel
                            starttime endtime format
                        # replicate (Suc k) (check_event \<lparr>plugins = []\<rparr> (make_usertoken self)
                                             (map Id_attr response0))
                        @ [retrieve_event \<lparr>plugins = []\<rparr> (make_usertoken self) ids, Open p])
             \<or> (\<exists>h. filename = FileObject h \<and> fh = Supplied h
                 \<and> tr = request_event self network station location channel
                            starttime endtime format
                        # replicate (Suc k) (check_event \<lparr>plugins = []\<rparr> (make_usertoken self)
                                             (map Id_attr response0))
                        @ [retrieve_event \<lparr>plugins = []\<rparr> (make_usertoken self) ids])))"
proof -
  let ?tok = "make_usertoken self"
  let ?req = "request_event self network station location channel starttime endtime format"
  let ?c = "\<lparr>plugins = []\<rparr>"
  let ?sid = "make_stationid network station location channel starttime endtime"
  from assms obtain response0 where
    r0: "dataRequest w (request_attrs format) ?tok ?sid = Inr response0"
    by (cases "dataRequest w (request_attrs format) ?tok ?sid")
       (simp_all add: before_download_unfold)
  from assms r0 have ne: "response0 \<noteq> []"
    by (cases "response0 = []") (simp_all add: before_download_unfold)
  from assms r0 ne obtain tr1 res where
    p0: "poll w ?c ?tok (map Id_attr response0) 0 [?req] = Some (tr1, res)"
    by (cases "poll w ?c ?tok (map Id_attr response0) 0 [?req]")
       (auto simp: before_download_unfold)
  from assms r0 ne p0 obtain response1 where res: "res = Inr response1"
    by (cases res) (simp_all add: before_download_unfold)
  from p0 res have p: "poll w ?c ?tok (map Id_attr response0) 0 [?req] = Some (tr1, Inr response1)"
    by simp
  from assms r0 ne p have rc: "(case retrieve w ?c ?tok filename response1 tr1 of
                    Inl out \<Rightarrow> Some (Inl out)
                  | Inr start \<Rightarrow> Some (Inr (?c, start))) = Some (Inr (client, tr, fh, ids, urls))"
    by (simp add: before_download_unfold)
  then have r: "retrieve w ?c ?tok filename response1 tr1 = Inr (tr, fh, ids, urls)"
    and c: "client = ?c"
    by (cases "retrieve w ?c ?tok filename response1 tr1"; simp)+
  from poll_Some[OF p] obtain k where
    k: "\<forall>j<k. \<exists>resp. checkStatus w j (map Id_attr response0) = Inr resp
                   \<and> ''false'' \<in> set (map ReadyFlag resp)"
    "tr1 = [?req] @ replicate (Suc k) (check_event ?c ?tok (map Id_attr response0))"
    "checkStatus w k (map Id_attr response0) = Inr response1"
    "''false'' \<notin> set (map ReadyFlag response1)"
    by auto
  from retrieve_Inr[OF r] k r0 ne c show ?thesis by auto
qed

lemma before_download_Inl:
  assumes "before_download w self filename network station location channel
             starttime endtime format = Some (Inl out)"
  shows "(\<exists>e. dataRequest w (request_attrs format) (make_usertoken self)
              (make_stationid network station location channel starttime endtime) = Inl e
            \<and> returned out = Inl e
            \<and> trace out = [request_event self network station location channel
                              starttime endtime format])
       \<or> (\<exists>response0 m rest.
            dataRequest w (request_attrs format) (make_usertoken self)
              (make_stationid network station location channel starttime endtime) = Inr response0
          \<and> client_after out = \<lparr>plugins = []\<rparr>
          \<and> trace out = request_event self network station location channel
                            starttime endtime format
                        # replicate m (check_event \<lparr>plugins = []\<rparr> (make_usertoken self)
                                        (map Id_attr response0)) @ rest
          \<and> (rest = []
             \<or> (\<exists>response1 k. 
                   checkStatus w k (map Id_attr response0) = Inr response1
                 \<and> ''false'' \<notin> set (map ReadyFlag response1)
                 \<and> (\<forall>j<k. \<exists>resp. checkStatus w j (map Id_attr response0) = Inr resp
                        \<and> ''false'' \<in> set (map ReadyFlag resp))
                 \<and> (rest = [retrieve_event \<lparr>plugins = []\<rparr> (make_usertoken self)
                               (map Id_attr (filter fulfilled response1))]
                    \<or> (\<exists>p. filename = Path p
                         \<and> rest = [retrieve_event \<lparr>plugins = []\<rparr> (make_usertoken self)
                                     (map Id_attr (filter fulfilled response1)), Open p])))))"
proof -
  let ?tok = "make_usertoken self"
  let ?req = "request_event self network station location channel starttime endtime format"
  let ?c = "\<lparr>plugins = []\<rparr>"
  let ?sid = "make_stationid network station location channel starttime endtime"
  show ?thesis
  proof (cases "dataRequest w (request_attrs format) ?tok ?sid")
    case (Inl e)
    with assms show ?thesis by (auto simp: before_download_unfold)
  next
    case (Inr response0)
    show ?thesis
    proof (cases "response0 = []")
      case True
      with Inr assms have "trace out = ?req # replicate 0 (check_event ?c ?tok (map Id_attr response0)) @ []"
        "client_after out = ?c"
        by (auto simp: before_download_unfold)
      with Inr show ?thesis by blast
    next
      case False
      with Inr assms obtain tr1 res where
        p: "poll w ?c ?tok (map Id_attr response0) 0 [?req] = Some (tr1, res)"
        by (auto simp: before_download_unfold split: option.splits)
      from poll_Some[OF p] obtain k where
        k: "\<forall>j<k. \<exists>resp. checkStatus w j (map Id_attr response0) = Inr resp
                   \<and> ''false'' \<in> set (map ReadyFlag resp)"
        "tr1 = [?req] @ replicate (Suc k) (check_event ?c ?tok (map Id_attr response0))"
        "(\<exists>response. checkStatus w k (map Id_attr response0) = Inr response
                  \<and> ''false'' \<notin> set (map ReadyFlag response) \<and> res = Inr response)
              \<or> (\<exists>e. checkStatus w k (map Id_attr response0) = Inl e \<and> res = Inl e)"
        by auto
      show ?thesis
      proof (cases res)
        case (Inl e)
        with Inr False assms p k(2) have
          "trace out = ?req # replicate (Suc k) (check_event ?c ?tok (map Id_attr response0)) @ []"
          "client_after out = ?c"
          by (auto simp: before_download_unfold)
        with Inr show ?thesis by blast
      next
        case (Inr response1)
        with \<open>dataRequest w (request_attrs format) ?tok ?sid = Inr response0\<close> False assms p
        have r: "retrieve w ?c ?tok filename response1 tr1 = Inl out"
          by (auto simp: before_download_unfold split: sum.splits)
        from k(3) Inr have s: "checkStatus w k (map Id_attr response0) = Inr response1"
          "''false'' \<notin> set (map ReadyFlag response1)" by auto
        from retrieve_Inl[OF r] have ca: "client_after out = ?c" by simp
        from retrieve_Inl[OF r] k(2) have
          "trace out = ?req # replicate (Suc k) (check_event ?c ?tok (map Id_attr response0)) @ []
           \<or> trace out = ?req # replicate (Suc k) (check_event ?c ?tok (map Id_attr response0))
                @ [retrieve_event ?c ?tok (map Id_attr (filter fulfilled response1))]
           \<or> (\<exists>p. filename = Path p \<and> trace out = ?req # replicate (Suc k) (check_event ?c ?tok (map Id_attr response0))
                @ [retrieve_event ?c ?tok (map Id_attr (filter fulfilled response1)), Open p])"
          by auto
        with ca s k(1) \<open>dataRequest w (request_attrs format) ?tok ?sid = Inr response0\<close>
        show ?thesis by blast
      qed
    qed
  qed
qed

lemma download_events:
  "\<exists>evs. fst (download w fh urls tr) = tr @ evs
        \<and> (\<forall>ev\<in>set evs. (\<exists>u. ev = UrlOpen u) \<or> (\<exists>b. ev = Write fh b))"
proof (induction urls arbitrary: tr)
  case Nil
  show ?case by simp
next
  case (Cons u urls)
  show ?case
  proof (cases "urlopen w u")
    case (Inl e)
    then show ?thesis by simp
  next
    case (Inr b)
    from Cons.IH[of "tr @ [UrlOpen u, Write fh b]"] obtain evs where
      "fst (download w fh urls (tr @ [UrlOpen u, Write fh b])) = (tr @ [UrlOpen u, Write fh b]) @ evs"
      "\<forall>ev\<in>set evs. (\<exists>u. ev = UrlOpen u) \<or> (\<exists>b. ev = Write fh b)" by blast
    with Inr show ?thesis
      by (intro exI[of _ "[UrlOpen u, Write fh b] @ evs"]) auto
  qed
qed

lemma write_and_purge_events:
  assumes "ev \<in> set (trace (write_and_purge w client tok filename fh ids urls tr))"
  shows "ev \<in> set tr \<or> (\<exists>u. ev = UrlOpen u) \<or> (\<exists>b. ev = Write fh b)
       \<or> ((\<exists>p. filename = Path p) \<and> ev = Close fh) \<or> ev = purge_event client tok ids"
proof -
  obtain evs where d: "fst (download w fh urls tr) = tr @ evs"
    and evs: "\<forall>ev\<in>set evs. (\<exists>u. ev = UrlOpen u) \<or> (\<exists>b. ev = Write fh b)"
    using download_events by blast
  obtain tr1 err where t: "download w fh urls tr = (tr1, err)"
    by (cases "download w fh urls tr")
  with d have tr1: "tr1 = tr @ evs" by simp
  have "ev \<in> set tr1 \<or> ((\<exists>p. filename = Path p) \<and> ev = Close fh)
          \<or> ev = purge_event client tok ids"
    using assms t
    by (cases err; cases filename) (auto simp: write_and_purge_def)
  with tr1 evs show ?thesis by auto
qed

lemma saveWaveform_trace_cases:
  assumes run: "saveWaveform w self filename network station location channel
                  starttime endtime format = Some out"
    and ev: "ev \<in> set (trace out)"
  shows "ev = request_event self network station location channel starttime endtime format
       \<or> (\<exists>response0.
            dataRequest w (request_attrs format) (make_usertoken self)
              (make_stationid network station location channel starttime endtime) = Inr response0
          \<and> (ev = check_event \<lparr>plugins = []\<rparr> (make_usertoken self) (map Id_attr response0)
             \<or> (\<exists>response1 k.
                   checkStatus w k (map Id_attr response0) = Inr response1
                 \<and> ''false'' \<notin> set (map ReadyFlag response1)
                 \<and> (\<forall>j<k. \<exists>resp. checkStatus w j (map Id_attr response0) = Inr resp
                        \<and> ''false'' \<in> set (map ReadyFlag resp))
                 \<and> (ev = retrieve_event \<lparr>plugins = []\<rparr> (make_usertoken self)
                            (map Id_attr (filter fulfilled response1))
                    \<or> ev = purge_event \<lparr>plugins = []\<rparr> (make_usertoken self)
                            (map Id_attr (filter fulfilled response1))
                    \<or> (\<exists>p. filename = Path p
                         \<and> (ev = Open p \<or> ev = Close (Opened p)
                            \<or> (\<exists>b. ev = Write (Opened p) b)))
                    \<or> (\<exists>h b. filename = FileObject h \<and> ev = Write (Supplied h) b)
                    \<or> (\<exists>u. ev = UrlOpen u)))))"
proof -
  let ?tok = "make_usertoken self"
  let ?req = "request_event self network station location channel starttime endtime format"
  let ?c = "\<lparr>plugins = []\<rparr>"
  let ?sid = "make_stationid network station location channel starttime endtime"
  let ?bd = "before_download w self filename network station location channel
               starttime endtime format"
  from run obtain r where bd: "?bd = Some r"
    by (cases ?bd) (simp_all add: saveWaveform_def)
  show ?thesis
  proof (cases r)
    case (Inl out')
    with run bd have "out' = out" by (simp add: saveWaveform_def)
    with Inl bd have b: "?bd = Some (Inl out)" by simp
    from before_download_Inl[OF b] ev show ?thesis
      by (elim disjE exE conjE) auto
  next
    case (Inr start)
    obtain client tr fh ids urls where s: "start = (client, tr, fh, ids, urls)"
      by (cases start)
    with Inr bd have b: "?bd = Some (Inr (client, tr, fh, ids, urls))" by simp
    with run have out: "out = write_and_purge w client ?tok filename fh ids urls tr"
      by (simp add: saveWaveform_def)
    from before_download_Inr[OF b] obtain response0 response1 k where
      c: "client = ?c"
      and r0: "dataRequest w (request_attrs format) ?tok ?sid = Inr response0"
      and f: "checkStatus w k (map Id_attr response0) = Inr response1"
         "''false'' \<notin> set (map ReadyFlag response1)"
         "\<forall>j<k. \<exists>resp. checkStatus w j (map Id_attr response0) = Inr resp
                        \<and> ''false'' \<in> set (map ReadyFlag resp)"
      and ids: "ids = map Id_attr (filter fulfilled response1)"
      and shape: "(\<exists>p. filename = Path p \<and> fh = Opened p
                 \<and> tr = ?req # replicate (Suc k) (check_event ?c ?tok (map Id_attr response0))
                        @ [retrieve_event ?c ?tok ids, Open p])
             \<or> (\<exists>h. filename = FileObject h \<and> fh = Supplied h
                 \<and> tr = ?req # replicate (Suc k) (check_event ?c ?tok (map Id_attr response0))
                        @ [retrieve_event ?c ?tok ids])"
      by blast
    from ev out have "ev \<in> set tr \<or> (\<exists>u. ev = UrlOpen u) \<or> (\<exists>b. ev = Write fh b)
       \<or> ((\<exists>p. filename = Path p) \<and> ev = Close fh) \<or> ev = purge_event client ?tok ids"
      using write_and_purge_events by blast
    then have "ev = ?req \<or> ev = check_event ?c ?tok (map Id_attr response0)
       \<or> ev = retrieve_event ?c ?tok ids \<or> ev = purge_event ?c ?tok ids
       \<or> (\<exists>p. filename = Path p \<and> (ev = Open p \<or> ev = Close (Opened p)
                            \<or> (\<exists>b. ev = Write (Opened p) b)))
       \<or> (\<exists>h b. filename = FileObject h \<and> ev = Write (Supplied h) b)
       \<or> (\<exists>u. ev = UrlOpen u)"
      using shape c by (elim disjE exE conjE) auto
    with r0 f ids show ?thesis by blast
  qed
qed

subsection \<open>Runs against the scripted service\<close>

lemma demo_fulfilled:
  "filter fulfilled (demo_status 2) =
     [routed ''A'' ''true'' ''Status: OK'' 100, routed ''B'' ''true'' ''Status: OK'' 100]"
  by (simp add: demo_status_def routed_def fulfilled_def)

lemma demo_usertoken: "make_usertoken demo_self = demo_token"
  by (simp add: make_usertoken_def demo_self_def demo_token_def replace_spaces_def)

lemma demo_stationid:
  "make_stationid ''NL'' ''WIT'' [] ''BH*'' ''2009-04-01T00:00:00'' ''2009-04-01T00:00:30''
     = demo_station"
  by (simp add: make_stationid_def demo_station_def)

lemma demo_poll:
  assumes "checkStatus w = checkStatus demo_world"
  shows "poll w \<lparr>plugins = []\<rparr> tok ids 0 tr =
     Some (tr @ replicate 3 (check_event \<lparr>plugins = []\<rparr> tok ids), Inr (demo_status 2))"
proof -
  have "poll w \<lparr>plugins = []\<rparr> tok ids 0 tr =
     Some (tr @ replicate (Suc 2) (check_event \<lparr>plugins = []\<rparr> tok ids), Inr (demo_status 2))"
  proof (rule poll_exit)
    show "checkStatus w (0 + 2) ids = Inr (demo_status 2)"
      by (simp add: assms demo_world_def demo_status_def)
    show "''false'' \<notin> set (map ReadyFlag (demo_status 2))"
      by (simp add: demo_status_def routed_def)
    show "\<forall>j<2. \<exists>resp. checkStatus w (0 + j) ids = Inr resp
              \<and> ''false'' \<in> set (map ReadyFlag resp)"
      by (simp add: assms demo_world_def demo_status_def routed_def)
  qed
  then show ?thesis by simp
qed

lemma demo_start:
  assumes "dataRequest w = dataRequest demo_world" and "checkStatus w = checkStatus demo_world"
    and "dataRetrieve w = dataRetrieve demo_world" and "open_file w = open_file demo_world"
  shows "before_download w demo_self (Path p) ''NL'' ''WIT'' [] ''BH*''
           ''2009-04-01T00:00:00'' ''2009-04-01T00:00:30'' format =
         Some (Inr (\<lparr>plugins = []\<rparr>, demo_prefix format @ [Open p], Opened p,
                    [''A'', ''B''], [''u1'', ''u2'']))"
    and "before_download w demo_self (FileObject h) ''NL'' ''WIT'' [] ''BH*''
           ''2009-04-01T00:00:00'' ''2009-04-01T00:00:30'' format =
         Some (Inr (\<lparr>plugins = []\<rparr>, demo_prefix format, Supplied h,
                    [''A'', ''B''], [''u1'', ''u2'']))"
proof -
  have r0: "\<And>attrs. dataRequest w attrs demo_token demo_station =
          Inr [routed ''A'' ''false'' [] 0, routed ''B'' ''false'' [] 0,
               routed ''C'' ''false'' [] 0]"
    by (simp add: assms demo_world_def)
  have rt: "dataRetrieve w [''A'', ''B''] = Inr [\<lparr>DownloadURL = ''u1''\<rparr>, \<lparr>DownloadURL = ''u2''\<rparr>]"
    "open_file w p = None"
    by (simp_all add: assms demo_world_def)
  note ev = before_download_unfold demo_usertoken demo_stationid r0 demo_poll[OF assms(2)]
        retrieve_def demo_fulfilled rt Let_def request_event_def check_event_def
        retrieve_event_def envelope_attrs_empty numeral_3_eq_3 routed_def demo_prefix_def
  show "before_download w demo_self (Path p) ''NL'' ''WIT'' [] ''BH*''
           ''2009-04-01T00:00:00'' ''2009-04-01T00:00:30'' format =
         Some (Inr (\<lparr>plugins = []\<rparr>, demo_prefix format @ [Open p], Opened p,
                    [''A'', ''B''], [''u1'', ''u2'']))"
    by (simp add: ev)
  show "before_download w demo_self (FileObject h) ''NL'' ''WIT'' [] ''BH*''
           ''2009-04-01T00:00:00'' ''2009-04-01T00:00:30'' format =
         Some (Inr (\<lparr>plugins = []\<rparr>, demo_prefix format, Supplied h,
                    [''A'', ''B''], [''u1'', ''u2'']))"
    by (simp add: ev)
qed

lemma demo_run_ok:
  "demo_run demo_world (Path ''out'') ''MSEED'' =
     Some \<lparr>trace = demo_prefix ''MSEED'' @
              [Open ''out'', UrlOpen ''u1'', Write (Opened ''out'') ''abc'',
               UrlOpen ''u2'', Write (Opened ''out'') ''def'', Close (Opened ''out''),
               Rpc ''purgeData'' [] (IdArgs demo_token [''A'', ''B''])],
           returned = Inr (), client_after = \<lparr>plugins = []\<rparr>\<rparr>"
  by (simp add: demo_run_def saveWaveform_def demo_start write_and_purge_def demo_usertoken
      purge_event_def envelope_attrs_empty)
     (simp add: demo_world_def)

lemma demo_run_handle:
  "demo_run demo_world (FileObject 7) ''FSEED'' =
     Some \<lparr>trace = demo_prefix ''FSEED'' @
              [UrlOpen ''u1'', Write (Supplied 7) ''abc'',
               UrlOpen ''u2'', Write (Supplied 7) ''def'',
               Rpc ''purgeData'' [] (IdArgs demo_token [''A'', ''B''])],
           returned = Inr (), client_after = \<lparr>plugins = []\<rparr>\<rparr>"
  by (simp add: demo_run_def saveWaveform_def demo_start write_and_purge_def demo_usertoken
      purge_event_def envelope_attrs_empty)
     (simp add: demo_world_def)

lemma demo_run_broken_download:
  "demo_run broken_download_world (Path ''out'') ''MSEED'' =
     Some \<lparr>trace = demo_prefix ''MSEED'' @
              [Open ''out'', UrlOpen ''u1'', Write (Opened ''out'') ''abc'', UrlOpen ''u2''],
           returned = Inl (URLError ''timed out''), client_after = \<lparr>plugins = []\<rparr>\<rparr>"
  by (simp add: demo_run_def saveWaveform_def demo_start broken_download_world_def
      write_and_purge_def demo_usertoken purge_event_def envelope_attrs_empty)

lemma demo_run_broken_purge:
  "demo_run broken_purge_world (Path ''out'') ''MSEED'' =
     Some \<lparr>trace = demo_prefix ''MSEED'' @
              [Open ''out'', UrlOpen ''u1'', Write (Opened ''out'') ''abc'',
               UrlOpen ''u2'', Write (Opened ''out'') ''def'', Close (Opened ''out''),
               Rpc ''purgeData'' [] (IdArgs demo_token [''A'', ''B''])],
           returned = Inl (SoapFault ''purge failed''), client_after = \<lparr>plugins = []\<rparr>\<rparr>"
  by (simp add: demo_run_def saveWaveform_def demo_start broken_purge_world_def
      write_and_purge_def demo_usertoken purge_event_def envelope_attrs_empty)
     (simp add: demo_world_def)

subsection \<open>The download phase\<close>

lemma start_no_purge:
  assumes "before_download w self filename network station location channel
             starttime endtime format = Some (Inr (client, tr, fh, ids, urls))"
  shows "filter (is_rpc ''purgeData'') tr = []"
    and "filter is_write tr = []"
    and "filter is_close tr = []"
    and "filter (is_rpc ''dataRetrieve'') tr = [retrieve_event \<lparr>plugins = []\<rparr> (make_usertoken self) ids]"
    and "client = \<lparr>plugins = []\<rparr>"
  using before_download_Inr[OF assms]
  by (auto simp: is_rpc_def is_write_def is_close_def request_event_def check_event_def
      retrieve_event_def)

lemma filter_download_events:
  "filter (is_rpc name) (concat (map (\<lambda>u. [UrlOpen u, Write fh (f u)]) urls)) = []"
  "filter is_close (concat (map (\<lambda>u. [UrlOpen u, Write fh (f u)]) urls)) = []"
  "filter is_write (concat (map (\<lambda>u. [UrlOpen u, Write fh (f u)]) urls))
     = map (\<lambda>u. Write fh (f u)) urls"
  "written (concat (map (\<lambda>u. [UrlOpen u, Write fh (f u)]) urls)) = concat (map f urls)"
  by (induction urls) (simp_all add: is_rpc_def is_close_def is_write_def written_def)

lemma written_append: "written (xs @ ys) = written xs @ written ys"
  by (simp add: written_def)

lemma written_no_write: "filter is_write tr = [] \<Longrightarrow> written tr = []"
  by (induction tr) (auto simp: written_def is_write_def split: event.splits if_splits)

lemma write_and_purge_extends:
  "\<exists>evs. trace (write_and_purge w client tok filename fh ids urls tr) = tr @ evs
         \<and> filter (is_rpc ''checkStatus'') evs = []"
proof (cases "\<forall>u\<in>set urls. fetched w u")
  case True
  then show ?thesis
    by (simp add: write_and_purge_ok filter_download_events)
       (simp add: is_rpc_def purge_event_def split: destination.split)
next
  case False
  from write_and_purge_fails[OF False, of client tok filename fh ids tr]
  show ?thesis
    by (auto simp: filter_download_events is_rpc_def)
qed

lemma write_and_purge_stops:
  assumes "\<not> (\<forall>u\<in>set urls. fetched w u)"
  shows "\<exists>pre u rest e. urls = pre @ u # rest \<and> (\<forall>v\<in>set pre. fetched w v)
           \<and> urlopen w u = Inl e
           \<and> write_and_purge w client tok filename fh ids urls tr =
               \<lparr>trace = tr @ concat (map (\<lambda>u. [UrlOpen u, Write fh (payload w u)]) pre)
                           @ [UrlOpen u],
                returned = Inl e, client_after = client\<rparr>"
proof -
  from assms have "dropWhile (fetched w) urls \<noteq> []" by simp
  then obtain u rest where d: "dropWhile (fetched w) urls = u # rest"
    by (cases "dropWhile (fetched w) urls") auto
  then have "\<not> fetched w u" by (metis hd_dropWhile list.sel(1) list.discI)
  then obtain e where e: "urlopen w u = Inl e"
    by (auto simp: fetched_def split: sum.splits)
  have "takeWhile (fetched w) urls @ dropWhile (fetched w) urls = urls"
    by (rule takeWhile_dropWhile_id)
  with d have split: "urls = takeWhile (fetched w) urls @ u # rest" by simp
  have all: "\<forall>v\<in>set (takeWhile (fetched w) urls). fetched w v"
    by (auto dest: set_takeWhileD)
  have "write_and_purge w client tok filename fh ids urls tr =
               \<lparr>trace = tr @ concat (map (\<lambda>u. [UrlOpen u, Write fh (payload w u)])
                                       (takeWhile (fetched w) urls)) @ [UrlOpen u],
                returned = Inl e, client_after = client\<rparr>"
    using d e by (simp add: write_and_purge_def download_takeWhile)
  with split all e show ?thesis by blast
qed

lemma before_download_loop:
  assumes r0: "dataRequest w (request_attrs format) (make_usertoken self)
                 (make_stationid network station location channel starttime endtime)
                 = Inr response0"
    and ne: "response0 \<noteq> []"
    and ended: "checkStatus w k (map Id_attr response0) = Inr response1"
    and ready: "''false'' \<notin> set (map ReadyFlag response1)"
    and waiting: "\<forall>j<k. \<exists>resp. checkStatus w j (map Id_attr response0) = Inr resp
                     \<and> ''false'' \<in> set (map ReadyFlag resp)"
  shows "before_download w self filename network station location channel
           starttime endtime format =
         (case retrieve w \<lparr>plugins = []\<rparr> (make_usertoken self) filename response1
                 (request_event self network station location channel starttime endtime format
                  # replicate (Suc k) (check_event \<lparr>plugins = []\<rparr> (make_usertoken self)
                                       (map Id_attr response0))) of
            Inl out \<Rightarrow> Some (Inl out)
          | Inr start \<Rightarrow> Some (Inr (\<lparr>plugins = []\<rparr>, start)))"
proof -
  let ?tok = "make_usertoken self"
  let ?req = "request_event self network station location channel starttime endtime format"
  let ?c = "\<lparr>plugins = []\<rparr>"
  have "poll w ?c ?tok (map Id_attr response0) 0 [?req] =
          Some ([?req] @ replicate (Suc k) (check_event ?c ?tok (map Id_attr response0)),
                Inr response1)"
  proof (rule poll_exit)
    show "checkStatus w (0 + k) (map Id_attr response0) = Inr response1"
      using ended by simp
    show "''false'' \<notin> set (map ReadyFlag response1)" by (rule ready)
    show "\<forall>j<k. \<exists>resp. checkStatus w (0 + j) (map Id_attr response0) = Inr resp
             \<and> ''false'' \<in> set (map ReadyFlag resp)"
      using waiting by simp
  qed
  with r0 ne show ?thesis by (simp add: before_download_unfold)
qed

lemma is_rpc_events:
  "is_rpc name (request_event self network station location channel starttime endtime format)
     = (name = ''dataRequest'')"
  "is_rpc name (check_event client tok ids) = (name = ''checkStatus'')"
  "is_rpc name (retrieve_event client tok ids) = (name = ''dataRetrieve'')"
  "is_rpc name (purge_event client tok ids) = (name = ''purgeData'')"
  "is_rpc name (Open p) = False"
  "is_rpc name (UrlOpen u) = False"
  "is_rpc name (Write fh b) = False"
  "is_rpc name (Close fh) = False"
  by (auto simp: is_rpc_def request_event_def check_event_def retrieve_event_def
      purge_event_def)

lemma run_starts_with_request:
  assumes run: "saveWaveform w self filename network station location channel
                  starttime endtime format = Some out"
  shows "\<exists>rest. trace out = request_event self network station location channel
                               starttime endtime format # rest"
proof -
  let ?bd = "before_download w self filename network station location channel
               starttime endtime format"
  from run obtain r where bd: "?bd = Some r"
    by (cases ?bd) (simp_all add: saveWaveform_def)
  show ?thesis
  proof (cases r)
    case (Inl out')
    with run bd have "out' = out" by (simp add: saveWaveform_def)
    with Inl bd have b: "?bd = Some (Inl out)" by simp
    from before_download_Inl[OF b] show ?thesis
      by (elim disjE exE conjE) simp_all
  next
    case (Inr start)
    obtain client tr fh ids urls where s: "start = (client, tr, fh, ids, urls)"
      by (cases start)
    with Inr bd have b: "?bd = Some (Inr (client, tr, fh, ids, urls))" by simp
    with run have out: "out = write_and_purge w client (make_usertoken self) filename
                                fh ids urls tr"
      by (simp add: saveWaveform_def)
    from before_download_Inr[OF b] obtain rest where
      t: "tr = request_event self network station location channel
                 starttime endtime format # rest"
      by (elim conjE exE disjE) simp_all
    obtain evs where
      "trace (write_and_purge w client (make_usertoken self) filename fh ids urls tr)
         = tr @ evs"
      using write_and_purge_extends by blast
    with out t show ?thesis by simp
  qed
qed

lemma request_fails:
  assumes "dataRequest w (request_attrs format) (make_usertoken self)
             (make_stationid network station location channel starttime endtime) = Inl e"
  shows "saveWaveform w self filename network station location channel
           starttime endtime format =
         Some \<lparr>trace = [request_event self network station location channel
                           starttime endtime format],
               returned = Inl e,
               client_after = \<lparr>plugins = (if format = ''MSEED'' then [RequestMSEEDPlugin]
                                            else [])\<rparr>\<rparr>"
  using assms by (simp add: saveWaveform_def before_download_unfold)


lemma retrieve_reached:
  assumes "ids = map Id_attr (filter fulfilled response)" and "ids \<noteq> []"
    and "dataRetrieve w ids = Inr items"
  shows "filename = Path p \<Longrightarrow> open_file w p = None \<Longrightarrow>
           retrieve w client tok filename response tr =
             Inr (tr @ [retrieve_event client tok ids, Open p], Opened p, ids,
                  map DownloadURL items)"
    and "filename = FileObject h \<Longrightarrow>
           retrieve w client tok filename response tr =
             Inr (tr @ [retrieve_event client tok ids], Supplied h, ids,
                  map DownloadURL items)"
    and "filename = Path p \<Longrightarrow> open_file w p = Some e \<Longrightarrow>
           retrieve w client tok filename response tr =
             Inl \<lparr>trace = tr @ [retrieve_event client tok ids, Open p], returned = Inl e,
                  client_after = client\<rparr>"
    and "filename = OtherObject \<Longrightarrow>
           retrieve w client tok filename response tr =
             Inl \<lparr>trace = tr @ [retrieve_event client tok ids],
                  returned = Inl (TypeError
                    ''Parameter filename must be either string or file handler.''),
                  client_after = client\<rparr>"
  using assms by (simp_all add: retrieve_def Let_def)

lemma before_download_reached:
  assumes r0: "dataRequest w (request_attrs format) (make_usertoken self)
                 (make_stationid network station location channel starttime endtime)
                 = Inr response0"
    and ne: "response0 \<noteq> []"
    and ended: "checkStatus w k (map Id_attr response0) = Inr response1"
    and ready: "''false'' \<notin> set (map ReadyFlag response1)"
    and waiting: "\<forall>j<k. \<exists>resp. checkStatus w j (map Id_attr response0) = Inr resp
                     \<and> ''false'' \<in> set (map ReadyFlag resp)"
    and ids: "ids = map Id_attr (filter fulfilled response1)"
    and some: "ids \<noteq> []"
    and items: "dataRetrieve w ids = Inr items"
    and dest: "(filename = Path p \<and> open_file w p = None \<and> fh = Opened p)
               \<or> (filename = FileObject h \<and> fh = Supplied h)"
  shows "\<exists>tr. before_download w self filename network station location channel
                 starttime endtime format
               = Some (Inr (\<lparr>plugins = []\<rparr>, tr, fh, ids, map DownloadURL items))"
proof -
  note loop = before_download_loop[OF r0 ne ended ready waiting]
  from dest show ?thesis
  proof
    assume "filename = Path p \<and> open_file w p = None \<and> fh = Opened p"
    then show ?thesis
      by (simp add: loop retrieve_reached(1)[OF ids some items])
  next
    assume "filename = FileObject h \<and> fh = Supplied h"
    then show ?thesis
      by (simp add: loop retrieve_reached(2)[OF ids some items])
  qed
qed


text \<open>
  C1. The specification wants the purge attempted whatever happens to the downloads,
  and a failing purge swallowed. The source has no exception handler in
  \<open>saveWaveform\<close>. What holds instead, once the downloads start: when every download
  succeeds, the run goes on with one fetch and one write for each URL, the \<open>close\<close> of
  a handle that was opened for a file name and the \<open>purgeData\<close> call, which is the
  only one, the last event, carries the fulfilled identifiers, and decides what
  \<open>saveWaveform\<close> returns or raises. When a download fails, the run ends at once with
  the fetch of the first URL that fails: the URLs before it have been fetched and
  written, \<open>saveWaveform\<close> raises the error of that fetch, and there is no later fetch
  or write, no \<open>close\<close> and no purge.
\<close>

theorem purge_only_after_complete_downloads:
  assumes "before_download w self filename network station location channel
             starttime endtime format = Some (Inr (client, tr, fh, ids, urls))"
  shows "\<exists>out. saveWaveform w self filename network station location channel
                  starttime endtime format = Some out
           \<and> (if \<forall>u\<in>set urls. fetched w u
              then trace out
                     = tr @ concat (map (\<lambda>u. [UrlOpen u, Write fh (payload w u)]) urls)
                          @ (case filename of Path p \<Rightarrow> [Close fh] | _ \<Rightarrow> [])
                          @ [purge_event \<lparr>plugins = []\<rparr> (make_usertoken self) ids]
                 \<and> filter (is_rpc ''purgeData'') (trace out)
                     = [purge_event \<lparr>plugins = []\<rparr> (make_usertoken self) ids]
                 \<and> last (trace out) = purge_event \<lparr>plugins = []\<rparr> (make_usertoken self) ids
                 \<and> returned out = purgeData w ids
              else filter (is_rpc ''purgeData'') (trace out) = []
                 \<and> filter is_close (trace out) = []
                 \<and> (\<exists>pre u rest e.
                       urls = pre @ u # rest \<and> (\<forall>v\<in>set pre. fetched w v)
                     \<and> u \<in> set urls \<and> urlopen w u = Inl e \<and> returned out = Inl e
                     \<and> trace out
                         = tr @ concat (map (\<lambda>u. [UrlOpen u, Write fh (payload w u)]) pre)
                              @ [UrlOpen u]
                     \<and> last (trace out) = UrlOpen u))"
proof (cases "\<forall>u\<in>set urls. fetched w u")
  case True
  from assms have "saveWaveform w self filename network station location channel
                  starttime endtime format
     = Some (write_and_purge w client (make_usertoken self) filename fh ids urls tr)"
    by (simp add: saveWaveform_def)
  with True show ?thesis
    by (simp add: write_and_purge_ok start_no_purge[OF assms] filter_download_events)
       (simp add: is_rpc_def purge_event_def split: destination.split)
next
  case False
  from assms have s: "saveWaveform w self filename network station location channel
                  starttime endtime format
     = Some (write_and_purge w client (make_usertoken self) filename fh ids urls tr)"
    by (simp add: saveWaveform_def)
  from write_and_purge_stops[OF False, of client "make_usertoken self" filename fh ids tr]
  obtain pre u rest e where
    d: "urls = pre @ u # rest" "\<forall>v\<in>set pre. fetched w v" "urlopen w u = Inl e"
    and wp: "write_and_purge w client (make_usertoken self) filename fh ids urls tr =
               \<lparr>trace = tr @ concat (map (\<lambda>u. [UrlOpen u, Write fh (payload w u)]) pre)
                           @ [UrlOpen u],
                returned = Inl e, client_after = client\<rparr>"
    by blast
  let ?out = "\<lparr>trace = tr @ concat (map (\<lambda>u. [UrlOpen u, Write fh (payload w u)]) pre)
                           @ [UrlOpen u],
                returned = Inl e, client_after = client\<rparr>"
  from d(1) have u: "u \<in> set urls" by simp
  have c1: "filter (is_rpc ''purgeData'') (trace ?out) = []"
    by (simp add: start_no_purge[OF assms] filter_download_events is_rpc_events)
  have c2: "filter is_close (trace ?out) = []"
    by (simp add: start_no_purge[OF assms] filter_download_events is_close_def)
  have c3: "\<exists>pre u rest e.
                       urls = pre @ u # rest \<and> (\<forall>v\<in>set pre. fetched w v)
                     \<and> u \<in> set urls \<and> urlopen w u = Inl e \<and> returned ?out = Inl e
                     \<and> trace ?out
                         = tr @ concat (map (\<lambda>u. [UrlOpen u, Write fh (payload w u)]) pre)
                              @ [UrlOpen u]
                     \<and> last (trace ?out) = UrlOpen u"
    using d u by (intro exI[of _ pre] exI[of _ u] exI[of _ rest] exI[of _ e]) simp
  show ?thesis
    by (rule exI[of _ ?out]) (simp only: s wp if_not_P[OF False] c1 c2 c3 simp_thms)
qed

theorem purge_only_after_complete_downloads_witness:
  "(\<exists>out. saveWaveform demo_world demo_self (Path ''out'') ''NL'' ''WIT'' []
                ''BH*'' ''2009-04-01T00:00:00'' ''2009-04-01T00:00:30'' ''MSEED'' = Some out
          \<and> filter (is_rpc ''purgeData'') (trace out)
               = [purge_event \<lparr>plugins = []\<rparr> (make_usertoken demo_self) [''A'', ''B'']]
          \<and> last (trace out) = purge_event \<lparr>plugins = []\<rparr> (make_usertoken demo_self) [''A'', ''B'']
          \<and> returned out = Inr ())
   \<and> (\<exists>out. saveWaveform broken_download_world demo_self (Path ''out'') ''NL'' ''WIT'' []
                ''BH*'' ''2009-04-01T00:00:00'' ''2009-04-01T00:00:30'' ''MSEED'' = Some out
          \<and> filter (is_rpc ''purgeData'') (trace out) = []
          \<and> filter is_close (trace out) = []
          \<and> (\<exists>u e. urlopen broken_download_world u = Inl e \<and> returned out = Inl e
                  \<and> last (trace out) = UrlOpen u))
   \<and> (\<exists>out. saveWaveform broken_purge_world demo_self (Path ''out'') ''NL'' ''WIT'' []
                ''BH*'' ''2009-04-01T00:00:00'' ''2009-04-01T00:00:30'' ''MSEED'' = Some out
          \<and> last (trace out) = purge_event \<lparr>plugins = []\<rparr> (make_usertoken demo_self) [''A'', ''B'']
          \<and> returned out = Inl (SoapFault ''purge failed''))"
proof -
  have h1: "before_download demo_world demo_self (Path ''out'') ''NL'' ''WIT'' []
       ''BH*'' ''2009-04-01T00:00:00'' ''2009-04-01T00:00:30'' ''MSEED''
     = Some (Inr (\<lparr>plugins = []\<rparr>, demo_prefix ''MSEED'' @ [Open ''out''], Opened ''out'',
                  [''A'', ''B''], [''u1'', ''u2'']))"
    by (rule demo_start) simp_all
  have f1: "\<forall>u\<in>set [''u1'', ''u2'']. fetched demo_world u"
    by (simp add: fetched_def demo_world_def)
  have p1: "purgeData demo_world [''A'', ''B''] = Inr ()"
    by (simp add: demo_world_def)
  have h2: "before_download broken_download_world demo_self (Path ''out'') ''NL'' ''WIT'' []
       ''BH*'' ''2009-04-01T00:00:00'' ''2009-04-01T00:00:30'' ''MSEED''
     = Some (Inr (\<lparr>plugins = []\<rparr>, demo_prefix ''MSEED'' @ [Open ''out''], Opened ''out'',
                  [''A'', ''B''], [''u1'', ''u2'']))"
    by (rule demo_start) (simp_all add: broken_download_world_def)
  have f2: "\<not> (\<forall>u\<in>set [''u1'', ''u2'']. fetched broken_download_world u)"
    by (simp add: fetched_def broken_download_world_def)
  have h3: "before_download broken_purge_world demo_self (Path ''out'') ''NL'' ''WIT'' []
       ''BH*'' ''2009-04-01T00:00:00'' ''2009-04-01T00:00:30'' ''MSEED''
     = Some (Inr (\<lparr>plugins = []\<rparr>, demo_prefix ''MSEED'' @ [Open ''out''], Opened ''out'',
                  [''A'', ''B''], [''u1'', ''u2'']))"
    by (rule demo_start) (simp_all add: broken_purge_world_def)
  have f3: "\<forall>u\<in>set [''u1'', ''u2'']. fetched broken_purge_world u"
    by (simp add: fetched_def broken_purge_world_def demo_world_def)
  have p3: "purgeData broken_purge_world [''A'', ''B''] = Inl (SoapFault ''purge failed'')"
    by (simp add: broken_purge_world_def)
  from purge_only_after_complete_downloads [OF h1]
  have "\<exists>out. saveWaveform demo_world demo_self (Path ''out'') ''NL'' ''WIT'' []
                ''BH*'' ''2009-04-01T00:00:00'' ''2009-04-01T00:00:30'' ''MSEED'' = Some out
          \<and> filter (is_rpc ''purgeData'') (trace out)
               = [purge_event \<lparr>plugins = []\<rparr> (make_usertoken demo_self) [''A'', ''B'']]
          \<and> last (trace out) = purge_event \<lparr>plugins = []\<rparr> (make_usertoken demo_self) [''A'', ''B'']
          \<and> returned out = Inr ()"
    by (simp only: if_P[OF f1] p1) (elim exE conjE, intro exI conjI, assumption+)
  moreover from purge_only_after_complete_downloads [OF h2]
  have "\<exists>out. saveWaveform broken_download_world demo_self (Path ''out'') ''NL'' ''WIT'' []
                ''BH*'' ''2009-04-01T00:00:00'' ''2009-04-01T00:00:30'' ''MSEED'' = Some out
          \<and> filter (is_rpc ''purgeData'') (trace out) = []
          \<and> filter is_close (trace out) = []
          \<and> (\<exists>u e. urlopen broken_download_world u = Inl e \<and> returned out = Inl e
                  \<and> last (trace out) = UrlOpen u)"
    by (simp only: if_not_P[OF f2]) (elim exE conjE, intro exI conjI, assumption+)
  moreover from purge_only_after_complete_downloads [OF h3]
  have "\<exists>out. saveWaveform broken_purge_world demo_self (Path ''out'') ''NL'' ''WIT'' []
                ''BH*'' ''2009-04-01T00:00:00'' ''2009-04-01T00:00:30'' ''MSEED'' = Some out
          \<and> last (trace out) = purge_event \<lparr>plugins = []\<rparr> (make_usertoken demo_self) [''A'', ''B'']
          \<and> returned out = Inl (SoapFault ''purge failed'')"
    by (simp only: if_P[OF f3] p3) (elim exE conjE, intro exI conjI, assumption+)
  ultimately show ?thesis by (intro conjI)
qed

theorem purge_best_effort_counterexample:
  "demo_run broken_download_world (Path ''out'') ''MSEED'' =
     Some \<lparr>trace =
             [Rpc ''dataRequest'' [(''DataFormat'', ''MSEED'')]
                (StationArgs demo_token demo_station),
              Rpc ''checkStatus'' [] (IdArgs demo_token [''A'', ''B'', ''C'']),
              Rpc ''checkStatus'' [] (IdArgs demo_token [''A'', ''B'', ''C'']),
              Rpc ''checkStatus'' [] (IdArgs demo_token [''A'', ''B'', ''C'']),
              Rpc ''dataRetrieve'' [] (IdArgs demo_token [''A'', ''B'']),
              Open ''out'', UrlOpen ''u1'', Write (Opened ''out'') ''abc'', UrlOpen ''u2''],
           returned = Inl (URLError ''timed out''), client_after = \<lparr>plugins = []\<rparr>\<rparr>
   \<and> returned (the (demo_run broken_purge_world (Path ''out'') ''MSEED''))
       = Inl (SoapFault ''purge failed'')"
  by (simp add: demo_run_broken_download demo_run_broken_purge demo_prefix_def request_attrs_def)

text \<open>
  C5. The specification wants the payloads of all URLs in the destination and one
  purge afterwards whenever the retrieval has given its URLs. The source stops at the
  first download that fails. What holds instead, when the status loop has ended, the
  retrieval has answered for the fulfilled identifiers and the destination is a file
  object or a file name that can be opened: the retrieval is called once, with these
  identifiers. When every URL can be fetched, the handle receives one write for each
  URL, in the order of the response, so the bytes written are the payloads one after
  the other, and the purge is then called exactly once, as the last call, with the
  identifiers of the retrieval. When a URL cannot be fetched, the handle has received
  the payloads of the URLs before the first such URL only, \<open>saveWaveform\<close> raises the
  error of that fetch, and there is no purge.
\<close>

theorem payloads_written_in_order_then_purged:
  assumes "dataRequest w (request_attrs format) (make_usertoken self)
             (make_stationid network station location channel starttime endtime)
             = Inr response0"
    and "response0 \<noteq> []"
    and "checkStatus w k (map Id_attr response0) = Inr response1"
    and "''false'' \<notin> set (map ReadyFlag response1)"
    and "\<forall>j<k. \<exists>resp. checkStatus w j (map Id_attr response0) = Inr resp
               \<and> ''false'' \<in> set (map ReadyFlag resp)"
    and "ids = map Id_attr (filter fulfilled response1)"
    and "ids \<noteq> []"
    and "dataRetrieve w ids = Inr items"
    and "urls = map DownloadURL items"
    and "(filename = Path p \<and> open_file w p = None \<and> fh = Opened p)
         \<or> (filename = FileObject h \<and> fh = Supplied h)"
  shows "\<exists>out. saveWaveform w self filename network station location channel
                  starttime endtime format = Some out
           \<and> filter (is_rpc ''dataRetrieve'') (trace out)
               = [retrieve_event \<lparr>plugins = []\<rparr> (make_usertoken self) ids]
           \<and> (if \<forall>u\<in>set urls. fetched w u
              then filter is_write (trace out) = map (\<lambda>u. Write fh (payload w u)) urls
                 \<and> written (trace out) = concat (map (payload w) urls)
                 \<and> filter (is_rpc ''purgeData'') (trace out)
                     = [purge_event \<lparr>plugins = []\<rparr> (make_usertoken self) ids]
                 \<and> last (trace out) = purge_event \<lparr>plugins = []\<rparr> (make_usertoken self) ids
                 \<and> returned out = purgeData w ids
              else (\<exists>pre u rest e.
                       urls = pre @ u # rest \<and> (\<forall>v\<in>set pre. fetched w v)
                     \<and> urlopen w u = Inl e \<and> returned out = Inl e
                     \<and> filter is_write (trace out) = map (\<lambda>u. Write fh (payload w u)) pre
                     \<and> written (trace out) = concat (map (payload w) pre)
                     \<and> last (trace out) = UrlOpen u)
                 \<and> filter (is_rpc ''purgeData'') (trace out) = [])"
proof -
  let ?tok = "make_usertoken self"
  from before_download_reached[OF assms(1-8) assms(10)] assms(9)
  obtain tr where start: "before_download w self filename network station location channel
             starttime endtime format = Some (Inr (\<lparr>plugins = []\<rparr>, tr, fh, ids, urls))"
    by auto
  then have run: "saveWaveform w self filename network station location channel
                  starttime endtime format
     = Some (write_and_purge w \<lparr>plugins = []\<rparr> ?tok filename fh ids urls tr)"
    by (simp add: saveWaveform_def)
  show ?thesis
  proof (cases "\<forall>u\<in>set urls. fetched w u")
    case True
    with run show ?thesis
      by (simp add: write_and_purge_ok start_no_purge(1-4)[OF start] filter_download_events
            written_append written_no_write)
         (simp add: is_rpc_def is_write_def purge_event_def written_def
            split: destination.split)
  next
    case False
    from write_and_purge_stops[OF False, of "\<lparr>plugins = []\<rparr>" ?tok filename fh ids tr]
    obtain pre u rest e where
      d: "urls = pre @ u # rest" "\<forall>v\<in>set pre. fetched w v" "urlopen w u = Inl e"
      and wp: "write_and_purge w \<lparr>plugins = []\<rparr> ?tok filename fh ids urls tr =
               \<lparr>trace = tr @ concat (map (\<lambda>u. [UrlOpen u, Write fh (payload w u)]) pre)
                           @ [UrlOpen u],
                returned = Inl e, client_after = \<lparr>plugins = []\<rparr>\<rparr>"
      by blast
    let ?out = "\<lparr>trace = tr @ concat (map (\<lambda>u. [UrlOpen u, Write fh (payload w u)]) pre)
                           @ [UrlOpen u],
                returned = Inl e, client_after = \<lparr>plugins = []\<rparr>\<rparr>"
    have r: "filter (is_rpc ''dataRetrieve'') (trace ?out)
               = [retrieve_event \<lparr>plugins = []\<rparr> ?tok ids]"
      by (simp add: start_no_purge(1-4)[OF start] filter_download_events is_rpc_events)
    have p: "filter (is_rpc ''purgeData'') (trace ?out) = []"
      by (simp add: start_no_purge(1-4)[OF start] filter_download_events is_rpc_events)
    have wr: "filter is_write (trace ?out) = map (\<lambda>u. Write fh (payload w u)) pre"
      by (simp add: start_no_purge(1-4)[OF start] filter_download_events is_write_def)
    have bytes: "written (trace ?out) = concat (map (payload w) pre)"
      by (simp add: written_append written_no_write start_no_purge(1-4)[OF start]
            filter_download_events)
         (simp add: written_def)
    have ex: "\<exists>pre u rest e.
                       urls = pre @ u # rest \<and> (\<forall>v\<in>set pre. fetched w v)
                     \<and> urlopen w u = Inl e \<and> returned ?out = Inl e
                     \<and> filter is_write (trace ?out) = map (\<lambda>u. Write fh (payload w u)) pre
                     \<and> written (trace ?out) = concat (map (payload w) pre)
                     \<and> last (trace ?out) = UrlOpen u"
      using d wr bytes
      by (intro exI[of _ pre] exI[of _ u] exI[of _ rest] exI[of _ e]) simp
    show ?thesis
      by (rule exI[of _ ?out]) (simp only: run wp if_not_P[OF False] r p ex simp_thms)
  qed
qed

theorem payloads_written_in_order_then_purged_witness:
  "\<exists>out. saveWaveform demo_world demo_self (FileObject 7) ''NL'' ''WIT'' []
             ''BH*'' ''2009-04-01T00:00:00'' ''2009-04-01T00:00:30'' ''FSEED'' = Some out
        \<and> filter (is_rpc ''dataRetrieve'') (trace out)
               = [Rpc ''dataRetrieve'' [] (IdArgs demo_token [''A'', ''B''])]
        \<and> filter is_write (trace out) = [Write (Supplied 7) ''abc'', Write (Supplied 7) ''def'']
        \<and> written (trace out) = ''abcdef''
        \<and> filter (is_rpc ''purgeData'') (trace out)
               = [Rpc ''purgeData'' [] (IdArgs demo_token [''A'', ''B''])]
        \<and> last (trace out) = Rpc ''purgeData'' [] (IdArgs demo_token [''A'', ''B''])
        \<and> returned out = Inr ()"
proof -
  let ?r0 = "[routed ''A'' ''false'' [] 0, routed ''B'' ''false'' [] 0,
              routed ''C'' ''false'' [] 0]"
  have a1: "dataRequest demo_world (request_attrs ''FSEED'') (make_usertoken demo_self)
             (make_stationid ''NL'' ''WIT'' [] ''BH*'' ''2009-04-01T00:00:00''
                ''2009-04-01T00:00:30'') = Inr ?r0"
    by (simp add: demo_world_def)
  have a2: "?r0 \<noteq> []" by simp
  have a3: "checkStatus demo_world 2 (map Id_attr ?r0) = Inr (demo_status 2)"
    by (simp add: demo_world_def)
  have a4: "''false'' \<notin> set (map ReadyFlag (demo_status 2))"
    by (simp add: demo_status_def routed_def)
  have a5: "\<forall>j<2. \<exists>resp. checkStatus demo_world j (map Id_attr ?r0) = Inr resp
               \<and> ''false'' \<in> set (map ReadyFlag resp)"
    by (simp add: demo_world_def demo_status_def routed_def)
  have a6: "[''A'', ''B''] = map Id_attr (filter fulfilled (demo_status 2))"
    by (simp add: demo_fulfilled routed_def)
  have a7: "[''A'', ''B''] \<noteq> ([] :: string list)" by simp
  have a8: "dataRetrieve demo_world [''A'', ''B'']
              = Inr [\<lparr>DownloadURL = ''u1''\<rparr>, \<lparr>DownloadURL = ''u2''\<rparr>]"
    by (simp add: demo_world_def)
  have a9: "[''u1'', ''u2''] = map DownloadURL [\<lparr>DownloadURL = ''u1''\<rparr>, \<lparr>DownloadURL = ''u2''\<rparr>]"
    by simp
  have a10: "(FileObject 7 = Path [] \<and> open_file demo_world [] = None \<and> Supplied 7 = Opened [])
         \<or> (FileObject 7 = FileObject 7 \<and> Supplied 7 = Supplied 7)"
    by simp
  have f: "\<forall>u\<in>set [''u1'', ''u2'']. fetched demo_world u"
    by (simp add: fetched_def demo_world_def)
  have p: "payload demo_world ''u1'' = ''abc''" "payload demo_world ''u2'' = ''def''"
    by (simp_all add: payload_def demo_world_def)
  have q: "purgeData demo_world [''A'', ''B''] = Inr ()"
    by (simp add: demo_world_def)
  from payloads_written_in_order_then_purged [OF a1 a2 a3 a4 a5 a6 a7 a8 a9 a10]
  have "\<exists>out. saveWaveform demo_world demo_self (FileObject 7) ''NL'' ''WIT'' []
             ''BH*'' ''2009-04-01T00:00:00'' ''2009-04-01T00:00:30'' ''FSEED'' = Some out
        \<and> filter (is_rpc ''dataRetrieve'') (trace out)
               = [retrieve_event \<lparr>plugins = []\<rparr> (make_usertoken demo_self) [''A'', ''B'']]
        \<and> filter is_write (trace out)
               = map (\<lambda>u. Write (Supplied 7) (payload demo_world u)) [''u1'', ''u2'']
        \<and> written (trace out) = concat (map (payload demo_world) [''u1'', ''u2''])
        \<and> filter (is_rpc ''purgeData'') (trace out)
               = [purge_event \<lparr>plugins = []\<rparr> (make_usertoken demo_self) [''A'', ''B'']]
        \<and> last (trace out)
               = purge_event \<lparr>plugins = []\<rparr> (make_usertoken demo_self) [''A'', ''B'']
        \<and> returned out = purgeData demo_world [''A'', ''B'']"
    by (simp only: if_P[OF f])
  then show ?thesis
    by (simp add: p q purge_event_def retrieve_event_def envelope_attrs_empty demo_usertoken)
qed

theorem payloads_not_all_written_counterexample:
  "dataRetrieve broken_download_world [''A'', ''B'']
     = Inr [\<lparr>DownloadURL = ''u1''\<rparr>, \<lparr>DownloadURL = ''u2''\<rparr>]
   \<and> demo_run broken_download_world (FileObject 7) ''FSEED'' =
       Some \<lparr>trace =
               [Rpc ''dataRequest'' [] (StationArgs demo_token demo_station),
                Rpc ''checkStatus'' [] (IdArgs demo_token [''A'', ''B'', ''C'']),
                Rpc ''checkStatus'' [] (IdArgs demo_token [''A'', ''B'', ''C'']),
                Rpc ''checkStatus'' [] (IdArgs demo_token [''A'', ''B'', ''C'']),
                Rpc ''dataRetrieve'' [] (IdArgs demo_token [''A'', ''B'']),
                UrlOpen ''u1'', Write (Supplied 7) ''abc'', UrlOpen ''u2''],
             returned = Inl (URLError ''timed out''), client_after = \<lparr>plugins = []\<rparr>\<rparr>
   \<and> written (trace (the (demo_run broken_download_world (FileObject 7) ''FSEED''))) = ''abc''
   \<and> filter (is_rpc ''purgeData'')
        (trace (the (demo_run broken_download_world (FileObject 7) ''FSEED''))) = []"
proof -
  have run: "demo_run broken_download_world (FileObject 7) ''FSEED'' =
     Some \<lparr>trace = demo_prefix ''FSEED'' @
              [UrlOpen ''u1'', Write (Supplied 7) ''abc'', UrlOpen ''u2''],
           returned = Inl (URLError ''timed out''), client_after = \<lparr>plugins = []\<rparr>\<rparr>"
    by (simp add: demo_run_def saveWaveform_def demo_start broken_download_world_def
        write_and_purge_def demo_usertoken purge_event_def envelope_attrs_empty)
  have "dataRetrieve broken_download_world [''A'', ''B'']
     = Inr [\<lparr>DownloadURL = ''u1''\<rparr>, \<lparr>DownloadURL = ''u2''\<rparr>]"
    by (simp add: broken_download_world_def demo_world_def)
  then show ?thesis
    by (simp add: run demo_prefix_def request_attrs_def written_def is_rpc_def)
qed

text \<open>
  C7. \<open>saveWaveform\<close> never closes a file object that the caller passed in, and every
  \<open>close\<close> of a run is the close of the file that the method opened for a file name.
  The specification has the opened file closed; the source closes it only after the
  last download, with no handler around the downloads. What holds instead, when the
  destination is a file name and the method has opened the file: when every download
  succeeds, the handle is closed exactly once, after the last write and before the
  purge; when a download fails, \<open>saveWaveform\<close> raises the error of that download and
  the handle it opened is never closed. With a file object of the caller nothing is
  closed, whether the downloads succeed or not.
\<close>

theorem closes_only_the_handle_it_opened:
  "(\<forall>out h. saveWaveform w self filename network station location channel
               starttime endtime format = Some out
             \<longrightarrow> Close (Supplied h) \<notin> set (trace out))
   \<and> (\<forall>out fh. saveWaveform w self filename network station location channel
               starttime endtime format = Some out
             \<and> Close fh \<in> set (trace out)
             \<longrightarrow> (\<exists>p. filename = Path p \<and> fh = Opened p))
   \<and> (\<forall>client tr p ids urls.
         before_download w self filename network station location channel
             starttime endtime format = Some (Inr (client, tr, Opened p, ids, urls))
         \<longrightarrow> (\<exists>out. saveWaveform w self filename network station location channel
                  starttime endtime format = Some out
               \<and> filename = Path p
               \<and> Open p \<in> set (trace out)
               \<and> (if \<forall>u\<in>set urls. fetched w u
                  then filter is_close (trace out) = [Close (Opened p)]
                     \<and> trace out
                         = tr @ concat (map (\<lambda>u. [UrlOpen u, Write (Opened p) (payload w u)])
                                          urls)
                              @ [Close (Opened p),
                                 purge_event \<lparr>plugins = []\<rparr> (make_usertoken self) ids]
                  else filter is_close (trace out) = []
                     \<and> (\<exists>u e. u \<in> set urls \<and> urlopen w u = Inl e
                            \<and> returned out = Inl e \<and> last (trace out) = UrlOpen u))))
   \<and> (\<forall>client tr h ids urls.
         before_download w self filename network station location channel
             starttime endtime format = Some (Inr (client, tr, Supplied h, ids, urls))
         \<longrightarrow> (\<exists>out. saveWaveform w self filename network station location channel
                  starttime endtime format = Some out
               \<and> filename = FileObject h
               \<and> filter is_close (trace out) = []))"
proof (intro conjI allI impI)
  fix out h
  assume run: "saveWaveform w self filename network station location channel
               starttime endtime format = Some out"
  show "Close (Supplied h) \<notin> set (trace out)"
  proof
    assume "Close (Supplied h) \<in> set (trace out)"
    from saveWaveform_trace_cases[OF run this] show False
      by (auto simp: request_event_def check_event_def retrieve_event_def purge_event_def)
  qed
next
  fix out fh
  assume "saveWaveform w self filename network station location channel
               starttime endtime format = Some out
             \<and> Close fh \<in> set (trace out)"
  then have run: "saveWaveform w self filename network station location channel
               starttime endtime format = Some out"
    and ev: "Close fh \<in> set (trace out)" by simp_all
  from saveWaveform_trace_cases[OF run ev] show "\<exists>p. filename = Path p \<and> fh = Opened p"
    by (auto simp: request_event_def check_event_def retrieve_event_def purge_event_def)
next
  fix client tr p ids urls
  assume b: "before_download w self filename network station location channel
             starttime endtime format = Some (Inr (client, tr, Opened p, ids, urls))"
  from before_download_Inr[OF b] have fn: "filename = Path p" and o: "Open p \<in> set tr"
    by auto
  from b have run: "saveWaveform w self filename network station location channel
                  starttime endtime format
     = Some (write_and_purge w client (make_usertoken self) filename (Opened p) ids urls tr)"
    by (simp add: saveWaveform_def)
  show "\<exists>out. saveWaveform w self filename network station location channel
                  starttime endtime format = Some out
               \<and> filename = Path p
               \<and> Open p \<in> set (trace out)
               \<and> (if \<forall>u\<in>set urls. fetched w u
                  then filter is_close (trace out) = [Close (Opened p)]
                     \<and> trace out
                         = tr @ concat (map (\<lambda>u. [UrlOpen u, Write (Opened p) (payload w u)])
                                          urls)
                              @ [Close (Opened p),
                                 purge_event \<lparr>plugins = []\<rparr> (make_usertoken self) ids]
                  else filter is_close (trace out) = []
                     \<and> (\<exists>u e. u \<in> set urls \<and> urlopen w u = Inl e
                            \<and> returned out = Inl e \<and> last (trace out) = UrlOpen u))"
  proof (cases "\<forall>u\<in>set urls. fetched w u")
    case True
    with run fn o show ?thesis
      by (simp add: write_and_purge_ok start_no_purge[OF b] filter_download_events)
         (simp add: is_close_def purge_event_def)
  next
    case False
    from write_and_purge_fails[OF False, of client "make_usertoken self" filename
                                 "Opened p" ids tr]
    obtain u e where u: "u \<in> set urls" "urlopen w u = Inl e"
      and wp: "write_and_purge w client (make_usertoken self) filename (Opened p) ids urls tr =
               \<lparr>trace = tr @ concat (map (\<lambda>u. [UrlOpen u, Write (Opened p) (payload w u)])
                                       (takeWhile (fetched w) urls)) @ [UrlOpen u],
                returned = Inl e, client_after = client\<rparr>"
      by blast
    let ?out = "\<lparr>trace = tr @ concat (map (\<lambda>u. [UrlOpen u, Write (Opened p) (payload w u)])
                                       (takeWhile (fetched w) urls)) @ [UrlOpen u],
                returned = Inl e, client_after = client\<rparr>"
    have c1: "filter is_close (trace ?out) = []"
      by (simp add: start_no_purge[OF b] filter_download_events is_close_def)
    have c2: "\<exists>u e. u \<in> set urls \<and> urlopen w u = Inl e
                            \<and> returned ?out = Inl e \<and> last (trace ?out) = UrlOpen u"
      using u by (intro exI[of _ u] exI[of _ e]) simp
    have c3: "Open p \<in> set (trace ?out)" using o by simp
    from fn have c4: "(filename = Path p) = True" by simp
    show ?thesis
      by (rule exI[of _ ?out]) (simp only: run wp c4 if_not_P[OF False] c1 c2 c3 simp_thms)
  qed
next
  fix client tr h ids urls
  assume b: "before_download w self filename network station location channel
             starttime endtime format = Some (Inr (client, tr, Supplied h, ids, urls))"
  from before_download_Inr[OF b] have fn: "filename = FileObject h"
    by auto
  from b have run: "saveWaveform w self filename network station location channel
                  starttime endtime format
     = Some (write_and_purge w client (make_usertoken self) filename (Supplied h) ids urls tr)"
    by (simp add: saveWaveform_def)
  show "\<exists>out. saveWaveform w self filename network station location channel
                  starttime endtime format = Some out
               \<and> filename = FileObject h
               \<and> filter is_close (trace out) = []"
  proof (cases "\<forall>u\<in>set urls. fetched w u")
    case True
    with run fn show ?thesis
      by (simp add: write_and_purge_ok start_no_purge[OF b] filter_download_events)
         (simp add: is_close_def purge_event_def)
  next
    case False
    from write_and_purge_fails[OF False, of client "make_usertoken self" filename
                                 "Supplied h" ids tr]
    obtain u e where
      wp: "write_and_purge w client (make_usertoken self) filename (Supplied h) ids urls tr =
               \<lparr>trace = tr @ concat (map (\<lambda>u. [UrlOpen u, Write (Supplied h) (payload w u)])
                                       (takeWhile (fetched w) urls)) @ [UrlOpen u],
                returned = Inl e, client_after = client\<rparr>"
      by blast
    with run fn show ?thesis
      by (simp add: start_no_purge[OF b] filter_download_events is_close_def)
  qed
qed

theorem closes_only_the_handle_it_opened_witness:
  "(\<exists>out. saveWaveform demo_world demo_self (Path ''out'') ''NL'' ''WIT'' []
             ''BH*'' ''2009-04-01T00:00:00'' ''2009-04-01T00:00:30'' ''MSEED'' = Some out
        \<and> Open ''out'' \<in> set (trace out)
        \<and> filter is_close (trace out) = [Close (Opened ''out'')])
   \<and> (\<exists>out. saveWaveform broken_download_world demo_self (Path ''out'') ''NL'' ''WIT'' []
             ''BH*'' ''2009-04-01T00:00:00'' ''2009-04-01T00:00:30'' ''MSEED'' = Some out
        \<and> Open ''out'' \<in> set (trace out)
        \<and> filter is_close (trace out) = [])
   \<and> (\<exists>out. saveWaveform demo_world demo_self (FileObject 7) ''NL'' ''WIT'' []
             ''BH*'' ''2009-04-01T00:00:00'' ''2009-04-01T00:00:30'' ''MSEED'' = Some out
        \<and> filter is_close (trace out) = []
        \<and> Close (Supplied 7) \<notin> set (trace out))"
proof -
  have h1: "before_download demo_world demo_self (Path ''out'') ''NL'' ''WIT'' []
       ''BH*'' ''2009-04-01T00:00:00'' ''2009-04-01T00:00:30'' ''MSEED''
     = Some (Inr (\<lparr>plugins = []\<rparr>, demo_prefix ''MSEED'' @ [Open ''out''], Opened ''out'',
                  [''A'', ''B''], [''u1'', ''u2'']))"
    by (rule demo_start) simp_all
  have h2: "before_download demo_world demo_self (FileObject 7) ''NL'' ''WIT'' []
       ''BH*'' ''2009-04-01T00:00:00'' ''2009-04-01T00:00:30'' ''MSEED''
     = Some (Inr (\<lparr>plugins = []\<rparr>, demo_prefix ''MSEED'', Supplied 7,
                  [''A'', ''B''], [''u1'', ''u2'']))"
    by (rule demo_start) simp_all
  have h3: "before_download broken_download_world demo_self (Path ''out'') ''NL'' ''WIT'' []
       ''BH*'' ''2009-04-01T00:00:00'' ''2009-04-01T00:00:30'' ''MSEED''
     = Some (Inr (\<lparr>plugins = []\<rparr>, demo_prefix ''MSEED'' @ [Open ''out''], Opened ''out'',
                  [''A'', ''B''], [''u1'', ''u2'']))"
    by (rule demo_start) (simp_all add: broken_download_world_def)
  have f: "\<forall>u\<in>set [''u1'', ''u2'']. fetched demo_world u"
    by (simp add: fetched_def demo_world_def)
  have f3: "\<not> (\<forall>u\<in>set [''u1'', ''u2'']. fetched broken_download_world u)"
    by (simp add: fetched_def broken_download_world_def)
  note t = closes_only_the_handle_it_opened
  note t1 = t [of demo_world demo_self "Path ''out''" "''NL''" "''WIT''" "[]" "''BH*''"
            "''2009-04-01T00:00:00''" "''2009-04-01T00:00:30''" "''MSEED''"]
  note t2 = t [of demo_world demo_self "FileObject 7" "''NL''" "''WIT''" "[]" "''BH*''"
            "''2009-04-01T00:00:00''" "''2009-04-01T00:00:30''" "''MSEED''"]
  note t3 = t [of broken_download_world demo_self "Path ''out''" "''NL''" "''WIT''" "[]"
            "''BH*''" "''2009-04-01T00:00:00''" "''2009-04-01T00:00:30''" "''MSEED''"]
  from t1 have "\<forall>client tr p ids urls.
         before_download demo_world demo_self (Path ''out'') ''NL'' ''WIT'' []
             ''BH*'' ''2009-04-01T00:00:00'' ''2009-04-01T00:00:30'' ''MSEED''
           = Some (Inr (client, tr, Opened p, ids, urls))
         \<longrightarrow> (\<exists>out. saveWaveform demo_world demo_self (Path ''out'') ''NL'' ''WIT'' []
                  ''BH*'' ''2009-04-01T00:00:00'' ''2009-04-01T00:00:30'' ''MSEED'' = Some out
               \<and> Path ''out'' = Path p
               \<and> Open p \<in> set (trace out)
               \<and> (if \<forall>u\<in>set urls. fetched demo_world u
                  then filter is_close (trace out) = [Close (Opened p)]
                     \<and> trace out
                         = tr @ concat (map (\<lambda>u. [UrlOpen u, Write (Opened p)
                                                               (payload demo_world u)]) urls)
                              @ [Close (Opened p),
                                 purge_event \<lparr>plugins = []\<rparr> (make_usertoken demo_self) ids]
                  else filter is_close (trace out) = []
                     \<and> (\<exists>u e. u \<in> set urls \<and> urlopen demo_world u = Inl e
                            \<and> returned out = Inl e \<and> last (trace out) = UrlOpen u)))"
    by (elim conjE)
  from this[rule_format, OF h1]
  have c1: "\<exists>out. saveWaveform demo_world demo_self (Path ''out'') ''NL'' ''WIT'' []
             ''BH*'' ''2009-04-01T00:00:00'' ''2009-04-01T00:00:30'' ''MSEED'' = Some out
        \<and> Open ''out'' \<in> set (trace out)
        \<and> filter is_close (trace out) = [Close (Opened ''out'')]"
    by (simp only: if_P[OF f]) (elim exE conjE, intro exI conjI, assumption+)
  from t3 have "\<forall>client tr p ids urls.
         before_download broken_download_world demo_self (Path ''out'') ''NL'' ''WIT'' []
             ''BH*'' ''2009-04-01T00:00:00'' ''2009-04-01T00:00:30'' ''MSEED''
           = Some (Inr (client, tr, Opened p, ids, urls))
         \<longrightarrow> (\<exists>out. saveWaveform broken_download_world demo_self (Path ''out'') ''NL'' ''WIT''
                  [] ''BH*'' ''2009-04-01T00:00:00'' ''2009-04-01T00:00:30'' ''MSEED''
                  = Some out
               \<and> Path ''out'' = Path p
               \<and> Open p \<in> set (trace out)
               \<and> (if \<forall>u\<in>set urls. fetched broken_download_world u
                  then filter is_close (trace out) = [Close (Opened p)]
                     \<and> trace out
                         = tr @ concat (map (\<lambda>u. [UrlOpen u, Write (Opened p)
                                                      (payload broken_download_world u)]) urls)
                              @ [Close (Opened p),
                                 purge_event \<lparr>plugins = []\<rparr> (make_usertoken demo_self) ids]
                  else filter is_close (trace out) = []
                     \<and> (\<exists>u e. u \<in> set urls \<and> urlopen broken_download_world u = Inl e
                            \<and> returned out = Inl e \<and> last (trace out) = UrlOpen u)))"
    by (elim conjE)
  from this[rule_format, OF h3]
  have c3: "\<exists>out. saveWaveform broken_download_world demo_self (Path ''out'') ''NL'' ''WIT'' []
             ''BH*'' ''2009-04-01T00:00:00'' ''2009-04-01T00:00:30'' ''MSEED'' = Some out
        \<and> Open ''out'' \<in> set (trace out)
        \<and> filter is_close (trace out) = []"
    by (simp only: if_not_P[OF f3]) (elim exE conjE, intro exI conjI, assumption+)
  have nc: "\<forall>out h. saveWaveform demo_world demo_self (FileObject 7) ''NL'' ''WIT'' []
                  ''BH*'' ''2009-04-01T00:00:00'' ''2009-04-01T00:00:30'' ''MSEED'' = Some out
             \<longrightarrow> Close (Supplied h) \<notin> set (trace out)"
    by (rule t2[THEN conjunct1])
  have "\<forall>client tr h ids urls.
         before_download demo_world demo_self (FileObject 7) ''NL'' ''WIT'' []
             ''BH*'' ''2009-04-01T00:00:00'' ''2009-04-01T00:00:30'' ''MSEED''
           = Some (Inr (client, tr, Supplied h, ids, urls))
         \<longrightarrow> (\<exists>out. saveWaveform demo_world demo_self (FileObject 7) ''NL'' ''WIT'' []
                  ''BH*'' ''2009-04-01T00:00:00'' ''2009-04-01T00:00:30'' ''MSEED'' = Some out
               \<and> FileObject 7 = FileObject h
               \<and> filter is_close (trace out) = [])"
    by (rule t2[THEN conjunct2, THEN conjunct2, THEN conjunct2])
  from this[rule_format, OF h2] nc
  have c2: "\<exists>out. saveWaveform demo_world demo_self (FileObject 7) ''NL'' ''WIT'' []
             ''BH*'' ''2009-04-01T00:00:00'' ''2009-04-01T00:00:30'' ''MSEED'' = Some out
        \<and> filter is_close (trace out) = []
        \<and> Close (Supplied 7) \<notin> set (trace out)"
    by (elim exE conjE) (intro exI conjI, assumption, assumption, simp)
  from c1 c3 c2 show ?thesis by (intro conjI)
qed

theorem opened_file_left_open_counterexample:
  "demo_run broken_download_world (Path ''out'') ''FSEED'' =
     Some \<lparr>trace =
             [Rpc ''dataRequest'' [] (StationArgs demo_token demo_station),
              Rpc ''checkStatus'' [] (IdArgs demo_token [''A'', ''B'', ''C'']),
              Rpc ''checkStatus'' [] (IdArgs demo_token [''A'', ''B'', ''C'']),
              Rpc ''checkStatus'' [] (IdArgs demo_token [''A'', ''B'', ''C'']),
              Rpc ''dataRetrieve'' [] (IdArgs demo_token [''A'', ''B'']),
              Open ''out'', UrlOpen ''u1'', Write (Opened ''out'') ''abc'', UrlOpen ''u2''],
           returned = Inl (URLError ''timed out''), client_after = \<lparr>plugins = []\<rparr>\<rparr>
   \<and> Open ''out'' \<in> set (trace (the (demo_run broken_download_world (Path ''out'') ''FSEED'')))
   \<and> filter is_close (trace (the (demo_run broken_download_world (Path ''out'') ''FSEED'')))
       = []"
proof -
  have run: "demo_run broken_download_world (Path ''out'') ''FSEED'' =
     Some \<lparr>trace = demo_prefix ''FSEED'' @
              [Open ''out'', UrlOpen ''u1'', Write (Opened ''out'') ''abc'', UrlOpen ''u2''],
           returned = Inl (URLError ''timed out''), client_after = \<lparr>plugins = []\<rparr>\<rparr>"
    by (simp add: demo_run_def saveWaveform_def demo_start broken_download_world_def
        write_and_purge_def demo_usertoken purge_event_def envelope_attrs_empty)
  show ?thesis
    by (simp add: run demo_prefix_def request_attrs_def is_close_def)
qed

lemma saveWaveform_client_after:
  assumes run: "saveWaveform w self filename network station location channel
                  starttime endtime format = Some out"
    and ok: "dataRequest w (request_attrs format) (make_usertoken self)
              (make_stationid network station location channel starttime endtime) = Inr response"
  shows "client_after out = \<lparr>plugins = []\<rparr>"
proof -
  let ?bd = "before_download w self filename network station location channel
               starttime endtime format"
  from run obtain r where bd: "?bd = Some r"
    by (cases ?bd) (simp_all add: saveWaveform_def)
  show ?thesis
  proof (cases r)
    case (Inl out')
    with run bd have "out' = out" by (simp add: saveWaveform_def)
    with Inl bd have b: "?bd = Some (Inl out)" by simp
    from before_download_Inl[OF b] ok show ?thesis by auto
  next
    case (Inr start)
    obtain client tr fh ids urls where s: "start = (client, tr, fh, ids, urls)"
      by (cases start)
    with Inr bd have b: "?bd = Some (Inr (client, tr, fh, ids, urls))" by simp
    with run have out: "out = write_and_purge w client (make_usertoken self) filename fh ids urls tr"
      by (simp add: saveWaveform_def)
    have "client_after (write_and_purge w client (make_usertoken self) filename fh ids urls tr)
            = client"
      by (cases "download w fh urls tr"; cases "snd (download w fh urls tr)")
         (auto simp: write_and_purge_def)
    with out start_no_purge(5)[OF b] show ?thesis by simp
  qed
qed

text \<open>
  C6. The plug-in adds the attribute \<open>DataFormat=MSEED\<close> to an envelope only when its
  body is a \<open>dataRequest\<close>. Every run of \<open>saveWaveform\<close> starts with the
  \<open>dataRequest\<close> call, which carries the attribute exactly when the format \<open>MSEED\<close>
  was asked for, and no other remote call of the run carries any attribute. The
  specification has the plug-in removed after every \<open>dataRequest\<close> call; the source
  removes it in the statement after the call, with no handler around the call. What
  holds instead: when \<open>dataRequest\<close> has answered, the list of plug-ins of the suds
  client is empty again and stays empty to the end of the run; when \<open>dataRequest\<close>
  raises, \<open>saveWaveform\<close> raises the same error at once and, for the format \<open>MSEED\<close>,
  leaves the plug-in in the list. The suds client is created by each call of
  \<open>saveWaveform\<close>, so the first call of a run never depends on an earlier run.
\<close>

theorem mseed_attribute_only_on_dataRequest:
  "envelope_attrs \<lparr>plugins = [RequestMSEEDPlugin]\<rparr> name
     = (if name = ''dataRequest'' then [(''DataFormat'', ''MSEED'')] else [])
   \<and> (\<forall>out. saveWaveform w self filename network station location channel
               starttime endtime format = Some out
        \<longrightarrow> (\<exists>rest. trace out
                      = Rpc ''dataRequest''
                          (if format = ''MSEED'' then [(''DataFormat'', ''MSEED'')] else [])
                          (StationArgs (make_usertoken self)
                             (make_stationid network station location channel
                                starttime endtime)) # rest)
          \<and> (\<forall>m attrs args. Rpc m attrs args \<in> set (trace out)
               \<longrightarrow> attrs = (if m = ''dataRequest'' \<and> format = ''MSEED''
                             then [(''DataFormat'', ''MSEED'')] else []))
          \<and> (case dataRequest w (request_attrs format) (make_usertoken self)
                     (make_stationid network station location channel starttime endtime) of
                Inr response \<Rightarrow> plugins (client_after out) = []
              | Inl e \<Rightarrow>
                  returned out = Inl e
                \<and> trace out = [request_event self network station location channel
                                  starttime endtime format]
                \<and> plugins (client_after out)
                    = (if format = ''MSEED'' then [RequestMSEEDPlugin] else [])))"
proof (intro conjI allI impI)
  show "envelope_attrs \<lparr>plugins = [RequestMSEEDPlugin]\<rparr> name
     = (if name = ''dataRequest'' then [(''DataFormat'', ''MSEED'')] else [])"
    by (rule envelope_attrs_MSEED)
next
  fix out
  assume run: "saveWaveform w self filename network station location channel
               starttime endtime format = Some out"
  from run_starts_with_request[OF run]
  show "\<exists>rest. trace out
                      = Rpc ''dataRequest''
                          (if format = ''MSEED'' then [(''DataFormat'', ''MSEED'')] else [])
                          (StationArgs (make_usertoken self)
                             (make_stationid network station location channel
                                starttime endtime)) # rest"
    by (simp add: request_event_def request_attrs_def)
next
  fix out m attrs args
  assume run: "saveWaveform w self filename network station location channel
               starttime endtime format = Some out"
    and ev: "Rpc m attrs args \<in> set (trace out)"
  from saveWaveform_trace_cases[OF run ev]
  show "attrs = (if m = ''dataRequest'' \<and> format = ''MSEED''
                             then [(''DataFormat'', ''MSEED'')] else [])"
    by (auto simp: request_event_def check_event_def retrieve_event_def purge_event_def
        envelope_attrs_empty request_attrs_def)
next
  fix out
  assume run: "saveWaveform w self filename network station location channel
               starttime endtime format = Some out"
  show "case dataRequest w (request_attrs format) (make_usertoken self)
                     (make_stationid network station location channel starttime endtime) of
                Inr response \<Rightarrow> plugins (client_after out) = []
              | Inl e \<Rightarrow>
                  returned out = Inl e
                \<and> trace out = [request_event self network station location channel
                                  starttime endtime format]
                \<and> plugins (client_after out)
                    = (if format = ''MSEED'' then [RequestMSEEDPlugin] else [])"
  proof (cases "dataRequest w (request_attrs format) (make_usertoken self)
                     (make_stationid network station location channel starttime endtime)")
    case (Inl e)
    from request_fails[OF Inl, of filename] run Inl show ?thesis by auto
  next
    case (Inr response)
    from saveWaveform_client_after[OF run Inr] Inr show ?thesis by simp
  qed
qed

theorem mseed_attribute_only_on_dataRequest_witness:
  "(\<exists>out. demo_run demo_world (Path ''out'') ''MSEED'' = Some out
      \<and> Rpc ''dataRequest'' [(''DataFormat'', ''MSEED'')] (StationArgs demo_token demo_station)
          \<in> set (trace out)
      \<and> Rpc ''checkStatus'' [] (IdArgs demo_token [''A'', ''B'', ''C'']) \<in> set (trace out)
      \<and> Rpc ''dataRetrieve'' [] (IdArgs demo_token [''A'', ''B'']) \<in> set (trace out)
      \<and> Rpc ''purgeData'' [] (IdArgs demo_token [''A'', ''B'']) \<in> set (trace out)
      \<and> plugins (client_after out) = [])"
proof -
  let ?out = "\<lparr>trace = demo_prefix ''MSEED'' @
              [Open ''out'', UrlOpen ''u1'', Write (Opened ''out'') ''abc'',
               UrlOpen ''u2'', Write (Opened ''out'') ''def'', Close (Opened ''out''),
               Rpc ''purgeData'' [] (IdArgs demo_token [''A'', ''B''])],
           returned = Inr (), client_after = \<lparr>plugins = []\<rparr>\<rparr>"
  let ?r0 = "[routed ''A'' ''false'' [] 0, routed ''B'' ''false'' [] 0,
              routed ''C'' ''false'' [] 0]"
  have run: "saveWaveform demo_world demo_self (Path ''out'') ''NL'' ''WIT'' [] ''BH*''
       ''2009-04-01T00:00:00'' ''2009-04-01T00:00:30'' ''MSEED'' = Some ?out"
    using demo_run_ok by (simp add: demo_run_def)
  have r: "dataRequest demo_world (request_attrs ''MSEED'') (make_usertoken demo_self)
            (make_stationid ''NL'' ''WIT'' [] ''BH*'' ''2009-04-01T00:00:00''
               ''2009-04-01T00:00:30'') = Inr ?r0"
    by (simp add: demo_world_def)
  from mseed_attribute_only_on_dataRequest
         [of "''dataRequest''" demo_world demo_self "Path ''out''" "''NL''" "''WIT''" "[]"
             "''BH*''" "''2009-04-01T00:00:00''" "''2009-04-01T00:00:30''" "''MSEED''"]
  have "\<forall>out. saveWaveform demo_world demo_self (Path ''out'') ''NL'' ''WIT'' [] ''BH*''
                ''2009-04-01T00:00:00'' ''2009-04-01T00:00:30'' ''MSEED'' = Some out
        \<longrightarrow> (case dataRequest demo_world (request_attrs ''MSEED'') (make_usertoken demo_self)
                     (make_stationid ''NL'' ''WIT'' [] ''BH*'' ''2009-04-01T00:00:00''
                        ''2009-04-01T00:00:30'') of
                Inr response \<Rightarrow> plugins (client_after out) = []
              | Inl e \<Rightarrow>
                  returned out = Inl e
                \<and> trace out = [request_event demo_self ''NL'' ''WIT'' [] ''BH*''
                                  ''2009-04-01T00:00:00'' ''2009-04-01T00:00:30'' ''MSEED'']
                \<and> plugins (client_after out)
                    = (if ''MSEED'' = ''MSEED'' then [RequestMSEEDPlugin] else []))"
    by (elim conjE) (intro allI impI, elim allE impE, assumption, elim conjE, assumption)
  from this[rule_format, OF run] have "plugins (client_after ?out) = []"
    by (simp only: r sum.case)
  with run show ?thesis
    by (simp add: demo_run_def demo_prefix_def request_attrs_def)
qed

theorem mseed_plugin_not_removed_counterexample:
  "demo_run broken_request_world (Path ''out'') ''MSEED'' =
     Some \<lparr>trace = [Rpc ''dataRequest'' [(''DataFormat'', ''MSEED'')]
                       (StationArgs demo_token demo_station)],
           returned = Inl (SoapFault ''request refused''),
           client_after = \<lparr>plugins = [RequestMSEEDPlugin]\<rparr>\<rparr>"
  by (simp add: demo_run_def saveWaveform_def before_download_unfold broken_request_world_def
      request_event_def request_attrs_def demo_usertoken demo_stationid)



subsection \<open>The status loop and getWaveform\<close>

lemma two_valued_flags:
  assumes "t \<noteq> f" and "\<forall>r\<in>set xs. g r = t \<or> g r = f"
  shows "(f \<in> set (map g xs)) = (\<exists>r\<in>set xs. g r \<noteq> t)"
  using assms by (induction xs) auto

lemma no_false_iff_not_all_true:
  assumes "\<forall>r\<in>set resp. ReadyFlag r = ''true'' \<or> ReadyFlag r = ''false''"
  shows "(''false'' \<in> set (map ReadyFlag resp)) = (\<exists>r\<in>set resp. ReadyFlag r \<noteq> ''true'')"
proof (rule two_valued_flags)
  show "''true'' \<noteq> ''false''" by simp
  show "\<forall>r\<in>set resp. ReadyFlag r = ''true'' \<or> ReadyFlag r = ''false''" by (rule assms)
qed

lemma checks_of_run:
  assumes r0: "dataRequest w (request_attrs format) (make_usertoken self)
                 (make_stationid network station location channel starttime endtime)
                 = Inr response0"
    and ne: "response0 \<noteq> []"
    and p: "poll w \<lparr>plugins = []\<rparr> (make_usertoken self) (map Id_attr response0) 0
              [request_event self network station location channel starttime endtime format]
            = Some ([request_event self network station location channel
                       starttime endtime format] @ checks, Inr response1)"
    and c: "filter (is_rpc ''checkStatus'') checks = checks"
  shows "\<exists>out. saveWaveform w self filename network station location channel
                  starttime endtime format = Some out
           \<and> filter (is_rpc ''checkStatus'') (trace out) = checks"
proof -
  let ?tok = "make_usertoken self"
  let ?req = "request_event self network station location channel starttime endtime format"
  let ?c = "\<lparr>plugins = []\<rparr>"
  let ?tr1 = "[?req] @ checks"
  have req: "\<not> is_rpc ''checkStatus'' ?req"
    by (simp add: is_rpc_def request_event_def)
  have f1: "filter (is_rpc ''checkStatus'') ?tr1 = checks"
    using req c by simp
  have bd: "before_download w self filename network station location channel
              starttime endtime format
            = (case retrieve w ?c ?tok filename response1 ?tr1 of
                 Inl out \<Rightarrow> Some (Inl out)
               | Inr start \<Rightarrow> Some (Inr (?c, start)))"
    using r0 ne p by (simp add: before_download_unfold)
  show ?thesis
  proof (cases "retrieve w ?c ?tok filename response1 ?tr1")
    case (Inl out)
    with bd have s: "saveWaveform w self filename network station location channel
                  starttime endtime format = Some out"
      by (simp add: saveWaveform_def)
    from retrieve_Inl[OF Inl] have "\<exists>evs. trace out = ?tr1 @ evs
         \<and> filter (is_rpc ''checkStatus'') evs = []"
      by (auto simp: is_rpc_def retrieve_event_def)
    then obtain evs where "trace out = ?tr1 @ evs" "filter (is_rpc ''checkStatus'') evs = []"
      by blast
    with f1 have "filter (is_rpc ''checkStatus'') (trace out) = checks"
      by (simp del: append.simps)
    with s show ?thesis by blast
  next
    case (Inr start)
    obtain tr fh ids urls where st: "start = (tr, fh, ids, urls)" by (cases start)
    with Inr bd have s: "saveWaveform w self filename network station location channel
                  starttime endtime format
        = Some (write_and_purge w ?c ?tok filename fh ids urls tr)"
      by (simp add: saveWaveform_def)
    from Inr st have "retrieve w ?c ?tok filename response1 ?tr1 = Inr (tr, fh, ids, urls)"
      by simp
    from retrieve_Inr[OF this] have "\<exists>evs. tr = ?tr1 @ evs
         \<and> filter (is_rpc ''checkStatus'') evs = []"
      by (auto simp: is_rpc_def retrieve_event_def)
    then obtain evs where t: "tr = ?tr1 @ evs" "filter (is_rpc ''checkStatus'') evs = []"
      by blast
    obtain evs' where
      t': "trace (write_and_purge w ?c ?tok filename fh ids urls tr) = tr @ evs'"
          "filter (is_rpc ''checkStatus'') evs' = []"
      using write_and_purge_extends by blast
    from t t' f1
    have "filter (is_rpc ''checkStatus'') (trace (write_and_purge w ?c ?tok filename fh ids urls tr))
            = checks"
      by (simp del: append.simps)
    with s show ?thesis by blast
  qed
qed

text \<open>
  C2. A \<open>ReadyFlag\<close> of the service is the text \<open>true\<close> or the text \<open>false\<close>. Then
  the status loop of \<open>saveWaveform\<close> goes on with a response exactly when this is the
  first response in which every flag is \<open>true\<close> (all responses before it arrived and
  had a flag that is not \<open>true\<close>), and the loop has then made exactly as many
  \<open>checkStatus\<close> calls as there are responses up to and including that one. No
  later step of \<open>saveWaveform\<close> checks the status again, so this is also the number
  of \<open>checkStatus\<close> calls of the whole run.
\<close>

theorem status_loop_ends_at_first_all_true:
  assumes flags: "\<forall>n resp. checkStatus w n ids = Inr resp
                    \<longrightarrow> (\<forall>r\<in>set resp. ReadyFlag r = ''true'' \<or> ReadyFlag r = ''false'')"
  shows "(poll w client tok ids 0 tr = Some (tr', Inr response)
          \<longleftrightarrow> (\<exists>k. checkStatus w k ids = Inr response
                \<and> (\<forall>r\<in>set response. ReadyFlag r = ''true'')
                \<and> (\<forall>j<k. \<exists>resp. checkStatus w j ids = Inr resp
                            \<and> (\<exists>r\<in>set resp. ReadyFlag r \<noteq> ''true''))
                \<and> tr' = tr @ replicate (Suc k) (check_event client tok ids)))
       \<and> (\<forall>self filename network station location channel starttime endtime format
             response0 k ready.
             dataRequest w (request_attrs format) (make_usertoken self)
               (make_stationid network station location channel starttime endtime)
               = Inr response0
           \<and> response0 \<noteq> [] \<and> ids = map Id_attr response0
           \<and> checkStatus w k ids = Inr ready
           \<and> (\<forall>r\<in>set ready. ReadyFlag r = ''true'')
           \<and> (\<forall>j<k. \<exists>resp. checkStatus w j ids = Inr resp
                       \<and> (\<exists>r\<in>set resp. ReadyFlag r \<noteq> ''true''))
           \<longrightarrow> (\<exists>out. saveWaveform w self filename network station location channel
                         starttime endtime format = Some out
                  \<and> filter (is_rpc ''checkStatus'') (trace out)
                      = replicate (Suc k)
                          (check_event \<lparr>plugins = []\<rparr> (make_usertoken self) ids)))"
proof -
  have eq: "\<And>n resp. checkStatus w n ids = Inr resp \<Longrightarrow>
              (''false'' \<in> set (map ReadyFlag resp)) = (\<exists>r\<in>set resp. ReadyFlag r \<noteq> ''true'')"
  proof (rule no_false_iff_not_all_true)
    fix n resp
    assume "checkStatus w n ids = Inr resp"
    with flags show "\<forall>r\<in>set resp. ReadyFlag r = ''true'' \<or> ReadyFlag r = ''false''"
      by (elim allE impE) assumption+
  qed
  have loop: "\<And>client tok tr tr' response.
      poll w client tok ids 0 tr = Some (tr', Inr response)
          \<longleftrightarrow> (\<exists>k. checkStatus w k ids = Inr response
                \<and> (\<forall>r\<in>set response. ReadyFlag r = ''true'')
                \<and> (\<forall>j<k. \<exists>resp. checkStatus w j ids = Inr resp
                            \<and> (\<exists>r\<in>set resp. ReadyFlag r \<noteq> ''true''))
                \<and> tr' = tr @ replicate (Suc k) (check_event client tok ids))"
  proof -
    fix client tok tr tr' response
    show "poll w client tok ids 0 tr = Some (tr', Inr response)
          \<longleftrightarrow> (\<exists>k. checkStatus w k ids = Inr response
                \<and> (\<forall>r\<in>set response. ReadyFlag r = ''true'')
                \<and> (\<forall>j<k. \<exists>resp. checkStatus w j ids = Inr resp
                            \<and> (\<exists>r\<in>set resp. ReadyFlag r \<noteq> ''true''))
                \<and> tr' = tr @ replicate (Suc k) (check_event client tok ids))"
    proof
      assume p: "poll w client tok ids 0 tr = Some (tr', Inr response)"
      from poll_Some[OF p] obtain k where
        k: "\<forall>j<k. \<exists>resp. checkStatus w j ids = Inr resp
                     \<and> ''false'' \<in> set (map ReadyFlag resp)"
        "tr' = tr @ replicate (Suc k) (check_event client tok ids)"
        "checkStatus w k ids = Inr response"
        "''false'' \<notin> set (map ReadyFlag response)"
        by auto
      from k(3,4) eq have "\<forall>r\<in>set response. ReadyFlag r = ''true''" by blast
      moreover have "\<forall>j<k. \<exists>resp. checkStatus w j ids = Inr resp
                            \<and> (\<exists>r\<in>set resp. ReadyFlag r \<noteq> ''true'')"
      proof (intro allI impI)
        fix j assume "j < k"
        with k(1) obtain resp where "checkStatus w j ids = Inr resp"
          "''false'' \<in> set (map ReadyFlag resp)" by blast
        with eq show "\<exists>resp. checkStatus w j ids = Inr resp
                            \<and> (\<exists>r\<in>set resp. ReadyFlag r \<noteq> ''true'')" by blast
      qed
      ultimately show "\<exists>k. checkStatus w k ids = Inr response
                \<and> (\<forall>r\<in>set response. ReadyFlag r = ''true'')
                \<and> (\<forall>j<k. \<exists>resp. checkStatus w j ids = Inr resp
                            \<and> (\<exists>r\<in>set resp. ReadyFlag r \<noteq> ''true''))
                \<and> tr' = tr @ replicate (Suc k) (check_event client tok ids)"
        using k(2,3) by blast
    next
      assume "\<exists>k. checkStatus w k ids = Inr response
                \<and> (\<forall>r\<in>set response. ReadyFlag r = ''true'')
                \<and> (\<forall>j<k. \<exists>resp. checkStatus w j ids = Inr resp
                            \<and> (\<exists>r\<in>set resp. ReadyFlag r \<noteq> ''true''))
                \<and> tr' = tr @ replicate (Suc k) (check_event client tok ids)"
      then obtain k where
        k: "checkStatus w k ids = Inr response"
        "\<forall>r\<in>set response. ReadyFlag r = ''true''"
        "\<forall>j<k. \<exists>resp. checkStatus w j ids = Inr resp
                            \<and> (\<exists>r\<in>set resp. ReadyFlag r \<noteq> ''true'')"
        "tr' = tr @ replicate (Suc k) (check_event client tok ids)"
        by blast
      have "poll w client tok ids 0 tr
              = Some (tr @ replicate (Suc k) (check_event client tok ids), Inr response)"
      proof (rule poll_exit)
        show "checkStatus w (0 + k) ids = Inr response" using k(1) by simp
        show "''false'' \<notin> set (map ReadyFlag response)" using k(1,2) eq by blast
        show "\<forall>j<k. \<exists>resp. checkStatus w (0 + j) ids = Inr resp
                 \<and> ''false'' \<in> set (map ReadyFlag resp)"
        proof (intro allI impI)
          fix j assume "j < k"
          with k(3) obtain resp where "checkStatus w j ids = Inr resp"
            "\<exists>r\<in>set resp. ReadyFlag r \<noteq> ''true''" by blast
          with eq show "\<exists>resp. checkStatus w (0 + j) ids = Inr resp
                 \<and> ''false'' \<in> set (map ReadyFlag resp)" by auto
        qed
      qed
      with k(4) show "poll w client tok ids 0 tr = Some (tr', Inr response)" by simp
    qed
  qed
  have run: "\<exists>out. saveWaveform w self filename network station location channel
                         starttime endtime format = Some out
                  \<and> filter (is_rpc ''checkStatus'') (trace out)
                      = replicate (Suc k)
                          (check_event \<lparr>plugins = []\<rparr> (make_usertoken self) ids)"
    if h: "dataRequest w (request_attrs format) (make_usertoken self)
               (make_stationid network station location channel starttime endtime)
               = Inr response0
           \<and> response0 \<noteq> [] \<and> ids = map Id_attr response0
           \<and> checkStatus w k ids = Inr ready
           \<and> (\<forall>r\<in>set ready. ReadyFlag r = ''true'')
           \<and> (\<forall>j<k. \<exists>resp. checkStatus w j ids = Inr resp
                       \<and> (\<exists>r\<in>set resp. ReadyFlag r \<noteq> ''true''))"
    for self filename network station location channel starttime endtime format
      response0 k ready
  proof -
    let ?req = "request_event self network station location channel starttime endtime format"
    let ?checks = "replicate (Suc k) (check_event \<lparr>plugins = []\<rparr> (make_usertoken self) ids)"
    from h have "\<exists>k'. checkStatus w k' ids = Inr ready
                \<and> (\<forall>r\<in>set ready. ReadyFlag r = ''true'')
                \<and> (\<forall>j<k'. \<exists>resp. checkStatus w j ids = Inr resp
                            \<and> (\<exists>r\<in>set resp. ReadyFlag r \<noteq> ''true''))
                \<and> [?req] @ ?checks
                    = [?req] @ replicate (Suc k')
                        (check_event \<lparr>plugins = []\<rparr> (make_usertoken self) ids)"
      by (intro exI[of _ k]) (elim conjE, intro conjI refl, assumption+)
    then have p: "poll w \<lparr>plugins = []\<rparr> (make_usertoken self) ids 0 [?req]
                    = Some ([?req] @ ?checks, Inr ready)"
      by (rule iffD2[OF loop])
    have c: "filter (is_rpc ''checkStatus'') ?checks = ?checks"
      by (simp add: is_rpc_def check_event_def)
    from h have r0: "dataRequest w (request_attrs format) (make_usertoken self)
               (make_stationid network station location channel starttime endtime)
               = Inr response0" and ne: "response0 \<noteq> []" and i: "ids = map Id_attr response0"
      by simp_all
    from checks_of_run[OF r0 ne p[unfolded i] c[unfolded i], of filename] i
    show ?thesis by simp
  qed
  show ?thesis
  proof (intro conjI allI impI)
    show "poll w client tok ids 0 tr = Some (tr', Inr response)
          \<longleftrightarrow> (\<exists>k. checkStatus w k ids = Inr response
                \<and> (\<forall>r\<in>set response. ReadyFlag r = ''true'')
                \<and> (\<forall>j<k. \<exists>resp. checkStatus w j ids = Inr resp
                            \<and> (\<exists>r\<in>set resp. ReadyFlag r \<noteq> ''true''))
                \<and> tr' = tr @ replicate (Suc k) (check_event client tok ids))"
      by (rule loop)
  next
    fix self filename network station location channel starttime endtime format
      response0 k ready
    assume "dataRequest w (request_attrs format) (make_usertoken self)
               (make_stationid network station location channel starttime endtime)
               = Inr response0
           \<and> response0 \<noteq> [] \<and> ids = map Id_attr response0
           \<and> checkStatus w k ids = Inr ready
           \<and> (\<forall>r\<in>set ready. ReadyFlag r = ''true'')
           \<and> (\<forall>j<k. \<exists>resp. checkStatus w j ids = Inr resp
                       \<and> (\<exists>r\<in>set resp. ReadyFlag r \<noteq> ''true''))"
    then show "\<exists>out. saveWaveform w self filename network station location channel
                         starttime endtime format = Some out
                  \<and> filter (is_rpc ''checkStatus'') (trace out)
                      = replicate (Suc k)
                          (check_event \<lparr>plugins = []\<rparr> (make_usertoken self) ids)"
      by (rule run)
  qed
qed

theorem status_loop_ends_at_first_all_true_witness:
  "poll demo_world \<lparr>plugins = []\<rparr> demo_token [''A'', ''B'', ''C''] 0 []
     = Some (replicate 3 (Rpc ''checkStatus'' [] (IdArgs demo_token [''A'', ''B'', ''C''])),
             Inr [routed ''A'' ''true'' ''Status: OK'' 100, routed ''B'' ''true'' ''Status: OK'' 100,
                  routed ''C'' ''true'' ''Status: OK'' 80])
   \<and> (\<exists>out. demo_run demo_world (Path ''out'') ''MSEED'' = Some out
          \<and> filter (is_rpc ''checkStatus'') (trace out)
              = replicate 3 (Rpc ''checkStatus'' [] (IdArgs demo_token [''A'', ''B'', ''C''])))"
proof -
  have flags: "\<forall>n resp. checkStatus demo_world n [''A'', ''B'', ''C''] = Inr resp
                    \<longrightarrow> (\<forall>r\<in>set resp. ReadyFlag r = ''true'' \<or> ReadyFlag r = ''false'')"
  proof (intro allI impI)
    fix n resp
    assume "checkStatus demo_world n [''A'', ''B'', ''C''] = Inr resp"
    then have "resp = demo_status n" by (simp add: demo_world_def)
    then show "\<forall>r\<in>set resp. ReadyFlag r = ''true'' \<or> ReadyFlag r = ''false''"
      by (simp add: demo_status_def routed_def)
  qed
  note t = status_loop_ends_at_first_all_true [OF flags]
  have c2: "checkStatus demo_world 2 [''A'', ''B'', ''C''] = Inr (demo_status 2)"
    by (simp add: demo_world_def)
  have t2: "\<forall>r\<in>set (demo_status 2). ReadyFlag r = ''true''"
    by (simp add: demo_status_def routed_def)
  have before: "\<forall>j<2. \<exists>resp. checkStatus demo_world j [''A'', ''B'', ''C''] = Inr resp
                          \<and> (\<exists>r\<in>set resp. ReadyFlag r \<noteq> ''true'')"
    by (simp add: demo_world_def demo_status_def routed_def)
  have "poll demo_world \<lparr>plugins = []\<rparr> demo_token [''A'', ''B'', ''C''] 0 []
     = Some ([] @ replicate (Suc 2) (check_event \<lparr>plugins = []\<rparr> demo_token [''A'', ''B'', ''C'']),
             Inr (demo_status 2))"
    by (rule iffD2 [OF t [THEN conjunct1]])
       (intro exI[of _ 2] conjI c2 t2 before refl)
  then have first: "poll demo_world \<lparr>plugins = []\<rparr> demo_token [''A'', ''B'', ''C''] 0 []
     = Some (replicate 3 (Rpc ''checkStatus'' [] (IdArgs demo_token [''A'', ''B'', ''C''])),
             Inr [routed ''A'' ''true'' ''Status: OK'' 100, routed ''B'' ''true'' ''Status: OK'' 100,
                  routed ''C'' ''true'' ''Status: OK'' 80])"
    by (simp add: check_event_def envelope_attrs_empty demo_status_def)
  have r0: "dataRequest demo_world (request_attrs ''MSEED'') (make_usertoken demo_self)
              (make_stationid ''NL'' ''WIT'' [] ''BH*'' ''2009-04-01T00:00:00''
                 ''2009-04-01T00:00:30'')
            = Inr [routed ''A'' ''false'' [] 0, routed ''B'' ''false'' [] 0,
                   routed ''C'' ''false'' [] 0]"
    by (simp add: demo_world_def)
  have ne: "[routed ''A'' ''false'' [] 0, routed ''B'' ''false'' [] 0,
             routed ''C'' ''false'' [] 0] \<noteq> []" by simp
  have ids: "[''A'', ''B'', ''C'']
              = map Id_attr [routed ''A'' ''false'' [] 0, routed ''B'' ''false'' [] 0,
                             routed ''C'' ''false'' [] 0]"
    by (simp add: routed_def)
  from t [THEN conjunct2, rule_format, where filename = "Path ''out''",
          OF conjI [OF r0 conjI [OF ne conjI [OF ids conjI [OF c2 conjI [OF t2 before]]]]]]
  have "\<exists>out. saveWaveform demo_world demo_self (Path ''out'') ''NL'' ''WIT'' [] ''BH*''
                ''2009-04-01T00:00:00'' ''2009-04-01T00:00:30'' ''MSEED'' = Some out
          \<and> filter (is_rpc ''checkStatus'') (trace out)
              = replicate (Suc 2)
                  (check_event \<lparr>plugins = []\<rparr> (make_usertoken demo_self) [''A'', ''B'', ''C''])" .
  then have second: "\<exists>out. demo_run demo_world (Path ''out'') ''MSEED'' = Some out
          \<and> filter (is_rpc ''checkStatus'') (trace out)
              = replicate 3 (Rpc ''checkStatus'' [] (IdArgs demo_token [''A'', ''B'', ''C'']))"
    by (simp add: demo_run_def check_event_def envelope_attrs_empty demo_usertoken)
  from first second show ?thesis by (rule conjI)
qed

text \<open>
  C10. When \<open>saveWaveform\<close> has returned and the reader cannot read what was written
  to the temporary file, whatever the error, \<open>getWaveform\<close> returns the empty stream
  and the error of the reader is not raised.
\<close>

theorem getWaveform_unreadable_gives_empty_stream:
  assumes "saveWaveform w self (FileObject tf) network station location channel
             starttime endtime format = Some out"
    and "returned out = Inr ()"
    and "read (written (trace out)) = Inl e"
  shows "getWaveform w read trace_trim self tf network station location channel
           starttime endtime format = Some (Inr [])"
  using assms by (simp add: getWaveform_def Stream_trim_def)

theorem getWaveform_unreadable_gives_empty_stream_witness:
  "getWaveform no_routes_world
     (\<lambda>bytes. if bytes = [] then Inl (IOError ''empty file'') else Inr [bytes])
     (\<lambda>t starttime endtime. Some t)
     demo_self 3 ''NL'' ''WIT'' [] ''BH*'' ''2009-04-01T00:00:00'' ''2009-04-01T00:00:30''
     ''MSEED'' = Some (Inr [])"
proof -
  have h: "dataRequest no_routes_world (request_attrs ''MSEED'') (make_usertoken demo_self)
     (make_stationid ''NL'' ''WIT'' [] ''BH*'' ''2009-04-01T00:00:00'' ''2009-04-01T00:00:30'')
     = Inr []"
    by (simp add: no_routes_world_def)
  have run: "saveWaveform no_routes_world demo_self (FileObject 3) ''NL'' ''WIT'' [] ''BH*''
          ''2009-04-01T00:00:00'' ''2009-04-01T00:00:30'' ''MSEED''
        = Some \<lparr>trace = [request_event demo_self ''NL'' ''WIT'' [] ''BH*''
                           ''2009-04-01T00:00:00'' ''2009-04-01T00:00:30'' ''MSEED''],
                 returned = Inr (), client_after = \<lparr>plugins = []\<rparr>\<rparr>"
    by (simp add: saveWaveform_def before_download_unfold h)
  show ?thesis
    by (rule getWaveform_unreadable_gives_empty_stream [OF run])
       (simp_all add: written_def request_event_def)
qed

subsection \<open>The mapping of keyword arguments\<close>

lemma MAP_distinct_values: "distinct (map snd MAP)"
  by (simp add: MAP_def)

lemma default_keys: "fst ` set new_kwargs_default \<subseteq> snd ` set MAP"
  by (simp add: new_kwargs_default_def MAP_def)

lemma default_format: "map_of new_kwargs_default ''format'' = Some (PStr ''list'')"
  by (simp add: new_kwargs_default_def)

lemma MAP_injective:
  assumes "map_of MAP k = Some r" and "map_of MAP k' = Some r"
  shows "k = k'"
proof -
  from assms have in_MAP: "(k, r) \<in> set MAP" "(k', r) \<in> set MAP"
    by (auto dest: map_of_SomeD)
  have inj: "inj_on snd (set MAP)"
    using MAP_distinct_values by (simp add: distinct_map)
  from inj_onD[OF inj _ in_MAP] have "(k, r) = (k', r)" by simp
  then show ?thesis by simp
qed

lemma keys_update: "fst ` set (AList.update k v al) = insert k (fst ` set al)"
  by (induction al) auto

lemma fold_skips_unmapped:
  "foldl map_step acc kwargs
     = foldl map_step acc (filter (\<lambda>kv. map_of MAP (fst kv) \<noteq> None) kwargs)"
  by (induction kwargs arbitrary: acc) auto

lemma fold_untouched:
  assumes "\<forall>kv\<in>set kwargs. map_of MAP (fst kv) \<noteq> Some r"
  shows "map_of (foldl map_step acc kwargs) r = map_of acc r"
  using assms
proof (induction kwargs arbitrary: acc)
  case Nil
  show ?case by simp
next
  case (Cons kv kwargs)
  have "map_of (map_step acc kv) r = map_of acc r"
    using Cons.prems by (cases kv) (auto simp: update_conv' split: option.splits)
  with Cons show ?case by simp
qed

lemma fold_mapped:
  assumes "distinct (map fst kwargs)" and "(k, v) \<in> set kwargs" and "map_of MAP k = Some r"
  shows "map_of (foldl map_step acc kwargs) r = Some v"
  using assms
proof (induction kwargs arbitrary: acc)
  case Nil
  then show ?case by simp
next
  case (Cons kv kwargs)
  show ?case
  proof (cases "kv = (k, v)")
    case True
    have "\<forall>kv'\<in>set kwargs. map_of MAP (fst kv') \<noteq> Some r"
    proof
      fix kv' assume in': "kv' \<in> set kwargs"
      show "map_of MAP (fst kv') \<noteq> Some r"
      proof
        assume "map_of MAP (fst kv') = Some r"
        with Cons.prems(3) have "fst kv' = k" by (rule MAP_injective[symmetric, OF _ _]) 
        moreover from Cons.prems(1) True have "k \<notin> fst ` set kwargs" by simp
        ultimately show False using in' by auto
      qed
    qed
    then have "map_of (foldl map_step (map_step acc kv) kwargs) r = map_of (map_step acc kv) r"
      by (rule fold_untouched)
    with True Cons.prems(3) show ?thesis
      by (simp add: update_conv')
  next
    case False
    with Cons.prems have "(k, v) \<in> set kwargs" "distinct (map fst kwargs)" by auto
    with Cons.IH[of "map_step acc kv"] Cons.prems(3) show ?thesis by simp
  qed
qed

lemma fold_keeps:
  assumes "map_of acc r \<noteq> None"
  shows "map_of (foldl map_step acc kwargs) r \<noteq> None"
  using assms
  by (induction kwargs arbitrary: acc)
     (auto simp: update_conv' split: option.splits)

lemma fold_keys:
  assumes "fst ` set acc \<subseteq> snd ` set MAP"
  shows "fst ` set (foldl map_step acc kwargs) \<subseteq> snd ` set MAP"
  using assms
proof (induction kwargs arbitrary: acc)
  case Nil
  then show ?case by simp
next
  case (Cons kv kwargs)
  have "fst ` set (map_step acc kv) \<subseteq> snd ` set MAP"
  proof (cases "map_of MAP (fst kv)")
    case None
    with Cons.prems show ?thesis by (cases kv) simp
  next
    case (Some r)
    then have "(fst kv, r) \<in> set MAP" by (rule map_of_SomeD)
    then have "r \<in> snd ` set MAP" by force
    with Some Cons.prems show ?thesis
      by (cases kv) (simp add: keys_update)
  qed
  with Cons.IH show ?case by simp
qed

lemma keys_update_present:
  "key \<in> fst ` set al \<Longrightarrow> fst ` set (AList.update key v al) = fst ` set al"
  by (simp add: keys_update insert_absorb)

lemma negate_if_set_Inr:
  assumes "negate_if_set key kwargs = Inr kwargs'"
  shows "map_of kwargs' r
           = (if r = key then map_option sent_depth (map_of kwargs key) else map_of kwargs r)"
    and "fst ` set kwargs' = fst ` set kwargs"
proof -
  show "map_of kwargs' r
           = (if r = key then map_option sent_depth (map_of kwargs key) else map_of kwargs r)"
    using assms
    by (auto simp: negate_if_set_def sent_depth_def update_conv'
        split: option.splits if_splits sum.splits)
  show "fst ` set kwargs' = fst ` set kwargs"
  proof (cases "map_of kwargs key")
    case None
    with assms show ?thesis by (simp add: negate_if_set_def)
  next
    case (Some v)
    then have "(key, v) \<in> set kwargs" by (rule map_of_SomeD)
    then have "key \<in> fst ` set kwargs" by force
    then have "\<And>v'. fst ` set (AList.update key v' kwargs) = fst ` set kwargs"
      by (rule keys_update_present)
    with Some assms show ?thesis
      by (cases "py_truth v"; cases "py_neg v") (simp_all add: negate_if_set_def, blast+)
  qed
qed

lemma negate_if_set_ok:
  assumes "\<forall>v. map_of kwargs key = Some v \<longrightarrow>
             \<not> py_truth v \<or> (\<exists>i. v = PInt i) \<or> (\<exists>x. v = PFloat x)"
  shows "\<exists>kwargs'. negate_if_set key kwargs = Inr kwargs'"
proof (cases "map_of kwargs key")
  case None
  then show ?thesis by (simp add: negate_if_set_def)
next
  case (Some v)
  show ?thesis
  proof (cases "py_truth v")
    case False
    with Some show ?thesis by (simp add: negate_if_set_def)
  next
    case True
    with assms Some have "(\<exists>i. v = PInt i) \<or> (\<exists>x. v = PFloat x)" by simp
    with Some True show ?thesis
      by (auto simp: negate_if_set_def)
  qed
qed

lemma bind_getEvents_ok:
  assumes "length args < 16"
  shows "bind_getEvents args (mapKwargs kwargs)
           = Inr (the (map_of (mapKwargs kwargs) ''format''),
                  AList.delete ''format'' (mapKwargs kwargs))"
proof -
  have "map_of (mapKwargs kwargs) ''format'' \<noteq> None"
    unfolding mapKwargs_def by (rule fold_keeps) (simp add: default_format)
  with assms show ?thesis by (auto simp: bind_getEvents_def)
qed

lemma fold_origin:
  assumes "map_of (foldl map_step acc kwargs) r = Some v"
  shows "map_of acc r = Some v \<or> (\<exists>k. (k, v) \<in> set kwargs \<and> map_of MAP k = Some r)"
  using assms
proof (induction kwargs arbitrary: acc)
  case Nil
  then show ?case by simp
next
  case (Cons kv kwargs)
  obtain k' v' where kv: "kv = (k', v')" by (cases kv)
  from Cons.prems have "map_of (foldl map_step (map_step acc kv) kwargs) r = Some v" by simp
  from Cons.IH[OF this]
  have "map_of (map_step acc kv) r = Some v
          \<or> (\<exists>k. (k, v) \<in> set kwargs \<and> map_of MAP k = Some r)" .
  then show ?case
  proof
    assume m: "map_of (map_step acc kv) r = Some v"
    show ?thesis
    proof (cases "map_of MAP k'")
      case None
      with m kv show ?thesis by simp
    next
      case (Some r')
      show ?thesis
      proof (cases "r' = r")
        case True
        with m kv Some have "v' = v" by (simp add: update_conv')
        with kv Some True show ?thesis by auto
      next
        case False
        with m kv Some show ?thesis by (simp add: update_conv')
      qed
    qed
  next
    assume "\<exists>k. (k, v) \<in> set kwargs \<and> map_of MAP k = Some r"
    then show ?thesis by auto
  qed
qed

lemma keys_delete: "fst ` set (AList.delete k al) = fst ` set al - {k}"
  by (induction al) auto

lemma MAP_depth_keys:
  "map_of MAP ''min_depth'' = Some ''depthMin''" "map_of MAP ''max_depth'' = Some ''depthMax''"
  "map_of new_kwargs_default ''depthMin'' = None" "map_of new_kwargs_default ''depthMax'' = None"
  "''format'' \<in> snd ` set MAP"
  by (simp_all add: MAP_def new_kwargs_default_def)

lemma getEvents_query_result:
  assumes args: "length args < 16"
    and keys: "distinct (map fst kwargs)"
    and depth: "\<forall>k v. (k, v) \<in> set kwargs \<and> (k = ''min_depth'' \<or> k = ''max_depth'')
                  \<longrightarrow> \<not> py_truth v \<or> (\<exists>i. v = PInt i) \<or> (\<exists>x. v = PFloat x)"
  shows "\<exists>format q. getEvents_query args kwargs = Inr (format, q)
     \<and> (\<forall>k v r. (k, v) \<in> set kwargs \<and> map_of MAP k = Some r \<and> r \<noteq> ''format''
          \<longrightarrow> map_of q r = Some (if r = ''depthMin'' \<or> r = ''depthMax''
                                    then sent_depth v else v))
     \<and> fst ` set q \<subseteq> snd ` set MAP"
proof -
  let ?nk = "mapKwargs kwargs"
  let ?fmt = "the (map_of ?nk ''format'')"
  let ?kw0 = "AList.delete ''format'' ?nk"
  let ?kw1 = "if ?fmt = PStr ''list'' then AList.update ''format'' (PStr ''json'') ?kw0 else ?kw0"
  have b: "bind_getEvents args ?nk = Inr (?fmt, ?kw0)"
    by (rule bind_getEvents_ok[OF args])
  have m1: "\<And>r. r \<noteq> ''format'' \<Longrightarrow> map_of ?kw1 r = map_of ?nk r"
    by (simp add: update_conv' delete_conv')
  have origin: "\<And>r v k0. map_of ?nk r = Some v \<Longrightarrow> map_of new_kwargs_default r = None
                  \<Longrightarrow> map_of MAP k0 = Some r
                  \<Longrightarrow> (k0, v) \<in> set kwargs"
  proof -
    fix r v k0
    assume "map_of ?nk r = Some v" "map_of new_kwargs_default r = None" "map_of MAP k0 = Some r"
    with fold_origin[of new_kwargs_default kwargs r v]
    obtain k where "(k, v) \<in> set kwargs" "map_of MAP k = Some r"
      by (auto simp: mapKwargs_def)
    with \<open>map_of MAP k0 = Some r\<close> show "(k0, v) \<in> set kwargs"
      using MAP_injective by blast
  qed
  have d1: "\<forall>v. map_of ?kw1 ''depthMin'' = Some v \<longrightarrow>
             \<not> py_truth v \<or> (\<exists>i. v = PInt i) \<or> (\<exists>x. v = PFloat x)"
  proof (intro allI impI)
    fix v assume "map_of ?kw1 ''depthMin'' = Some v"
    then have "map_of ?nk ''depthMin'' = Some v" using m1[of "''depthMin''"] by simp
    from origin[OF this MAP_depth_keys(3) MAP_depth_keys(1)] depth
    show "\<not> py_truth v \<or> (\<exists>i. v = PInt i) \<or> (\<exists>x. v = PFloat x)" by blast
  qed
  from negate_if_set_ok[OF d1] obtain kw2 where
    n1: "negate_if_set ''depthMin'' ?kw1 = Inr kw2" by blast
  note k2 = negate_if_set_Inr[OF n1]
  have d2: "\<forall>v. map_of kw2 ''depthMax'' = Some v \<longrightarrow>
             \<not> py_truth v \<or> (\<exists>i. v = PInt i) \<or> (\<exists>x. v = PFloat x)"
  proof (intro allI impI)
    fix v assume "map_of kw2 ''depthMax'' = Some v"
    then have "map_of ?nk ''depthMax'' = Some v"
      using m1[of "''depthMax''"] k2(1)[of "''depthMax''"] by simp
    from origin[OF this MAP_depth_keys(4) MAP_depth_keys(2)] depth
    show "\<not> py_truth v \<or> (\<exists>i. v = PInt i) \<or> (\<exists>x. v = PFloat x)" by blast
  qed
  from negate_if_set_ok[OF d2] obtain q where
    n2: "negate_if_set ''depthMax'' kw2 = Inr q" by blast
  note k3 = negate_if_set_Inr[OF n2]
  have res: "getEvents_query args kwargs = Inr (?fmt, q)"
    using b n1 n2 by (simp add: getEvents_query_def)
  have vals: "\<forall>k v r. (k, v) \<in> set kwargs \<and> map_of MAP k = Some r \<and> r \<noteq> ''format''
          \<longrightarrow> map_of q r = Some (if r = ''depthMin'' \<or> r = ''depthMax''
                                    then sent_depth v else v)"
  proof (intro allI impI)
    fix k v r
    assume a: "(k, v) \<in> set kwargs \<and> map_of MAP k = Some r \<and> r \<noteq> ''format''"
    then have "map_of ?nk r = Some v"
      unfolding mapKwargs_def using keys by (intro fold_mapped) auto
    with a have "map_of ?kw1 r = Some v" using m1[of r] by simp
    then show "map_of q r = Some (if r = ''depthMin'' \<or> r = ''depthMax''
                                    then sent_depth v else v)"
      using k2(1)[of r] k2(1)[of "''depthMax''"] k3(1)[of r] by (cases "r = ''depthMin''") auto
  qed
  have "fst ` set ?nk \<subseteq> snd ` set MAP"
    unfolding mapKwargs_def by (rule fold_keys[OF default_keys])
  then have "fst ` set ?kw1 \<subseteq> snd ` set MAP"
    using MAP_depth_keys(5) by (auto simp: keys_update keys_delete)
  then have "fst ` set q \<subseteq> snd ` set MAP" using k2(2) k3(2) by simp
  with res vals show ?thesis by blast
qed

text \<open>
  C9. The specification wants a keyword of the table sent under its remote name and
  a keyword outside the table passed through to the outbound query. The wrapper of
  \<open>_mapKwargs\<close> copies a keyword only under the guard \<open>if key in MAP\<close>. What holds
  instead, for a call with fewer than sixteen positional arguments whose depth bounds,
  if any, are numbers: every keyword of the table other than \<open>format\<close> is sent under
  its remote name, with the value passed (a depth bound with the sign changed, see
  C8); the query is the same as for the call without the keywords outside the table,
  and every key of the query is a remote name of the table.
\<close>

theorem mapped_keywords_sent_unmapped_dropped:
  assumes args: "length args < 16"
    and keys: "distinct (map fst kwargs)"
    and depth: "\<forall>k v. (k, v) \<in> set kwargs \<and> (k = ''min_depth'' \<or> k = ''max_depth'')
                  \<longrightarrow> \<not> py_truth v \<or> (\<exists>i. v = PInt i) \<or> (\<exists>x. v = PFloat x)"
  shows "\<exists>format q. getEvents_query args kwargs = Inr (format, q)
     \<and> (\<forall>k v r. (k, v) \<in> set kwargs \<and> map_of MAP k = Some r \<and> r \<noteq> ''format''
          \<longrightarrow> map_of q r = Some (if r = ''depthMin'' \<or> r = ''depthMax''
                                    then sent_depth v else v))
     \<and> getEvents_query args (filter (\<lambda>kv. map_of MAP (fst kv) \<noteq> None) kwargs)
         = Inr (format, q)
     \<and> fst ` set q \<subseteq> snd ` set MAP"
proof -
  have "mapKwargs (filter (\<lambda>kv. map_of MAP (fst kv) \<noteq> None) kwargs) = mapKwargs kwargs"
    unfolding mapKwargs_def by (rule fold_skips_unmapped[symmetric])
  then have "getEvents_query args (filter (\<lambda>kv. map_of MAP (fst kv) \<noteq> None) kwargs)
               = getEvents_query args kwargs"
    by (simp add: getEvents_query_def)
  with getEvents_query_result[OF args keys depth] show ?thesis by auto
qed

theorem mapped_keywords_sent_unmapped_dropped_witness:
  "\<exists>format q. getEvents_query [] [(''min_magnitude'', PInt 9), (''region'', PStr ''x'')]
                 = Inr (format, q)
     \<and> map_of q ''magMin'' = Some (PInt 9)
     \<and> getEvents_query [] [(''min_magnitude'', PInt 9)] = Inr (format, q)"
proof -
  have a: "length ([] :: pyval list) < 16" by simp
  have k: "distinct (map fst [(''min_magnitude'', PInt 9), (''region'', PStr ''x'')])" by simp
  have d: "\<forall>k v. (k, v) \<in> set [(''min_magnitude'', PInt 9), (''region'', PStr ''x'')]
                   \<and> (k = ''min_depth'' \<or> k = ''max_depth'')
                  \<longrightarrow> \<not> py_truth v \<or> (\<exists>i. v = PInt i) \<or> (\<exists>x. v = PFloat x)"
    by auto
  have f: "filter (\<lambda>kv. map_of MAP (fst kv) \<noteq> None)
             [(''min_magnitude'', PInt 9), (''region'', PStr ''x'')]
           = [(''min_magnitude'', PInt 9)]"
    by (simp add: MAP_def)
  have m: "map_of MAP ''min_magnitude'' = Some ''magMin''" by (simp add: MAP_def)
  from mapped_keywords_sent_unmapped_dropped [OF a k d] obtain format q where
    q: "getEvents_query [] [(''min_magnitude'', PInt 9), (''region'', PStr ''x'')]
          = Inr (format, q)"
    and v: "\<forall>k v r. (k, v) \<in> set [(''min_magnitude'', PInt 9), (''region'', PStr ''x'')]
                \<and> map_of MAP k = Some r \<and> r \<noteq> ''format''
          \<longrightarrow> map_of q r = Some (if r = ''depthMin'' \<or> r = ''depthMax''
                                    then sent_depth v else v)"
    and e: "getEvents_query []
              (filter (\<lambda>kv. map_of MAP (fst kv) \<noteq> None)
                 [(''min_magnitude'', PInt 9), (''region'', PStr ''x'')]) = Inr (format, q)"
    by blast
  from v m have "map_of q ''magMin'' = Some (PInt 9)"
    by (elim allE[of _ "''min_magnitude''"] allE[of _ "PInt 9"] allE[of _ "''magMin''"]) simp
  with q e f show ?thesis by (intro exI[of _ format] exI[of _ q]) simp
qed

theorem unmapped_keyword_passed_through_counterexample:
  "getEvents_query [] [(''min_magnitude'', PInt 9), (''region'', PStr ''x'')]
     = Inr (PStr ''list'',
            [(''sort'', PStr ''datetime''), (''dir'', PStr ''ASC''), (''limit'', PInt 100),
             (''magMin'', PInt 9), (''format'', PStr ''json'')])
   \<and> getEvents_query [] [(''format'', PStr ''xml'')]
     = Inr (PStr ''xml'',
            [(''sort'', PStr ''datetime''), (''dir'', PStr ''ASC''), (''limit'', PInt 100)])"
  by (simp add: getEvents_query_def mapKwargs_def bind_getEvents_def negate_if_set_def
      new_kwargs_default_def MAP_def)

subsection \<open>The normalisation of one record\<close>

lemma MAP_INVERSE_eq:
  "MAP_INVERSE =
     [(''dateMin'', ''min_datetime''), (''dateMax'', ''max_datetime''),
      (''latMin'', ''min_latitude''), (''latMax'', ''max_latitude''),
      (''lonMin'', ''min_longitude''), (''lonMax'', ''max_longitude''),
      (''depthMin'', ''min_depth''), (''depthMax'', ''max_depth''),
      (''magMin'', ''min_magnitude''), (''magMax'', ''max_magnitude''),
      (''magType'', ''magnitude_type''), (''auth'', ''author''),
      (''limit'', ''max_results''), (''sort'', ''sort_by''),
      (''dir'', ''sort_direction''), (''format'', ''format''),
      (''datetime'', ''datetime''), (''depth'', ''depth''),
      (''flynn_region'', ''flynn_region''), (''lat'', ''latitude''),
      (''lon'', ''longitude''), (''mag'', ''magnitude''),
      (''orid'', ''origin_id''), (''unid'', ''event_id''),
      (''magtype'', ''magnitude_type'')]"
  by (simp add: MAP_INVERSE_def py_dict_def MAP_def)

lemma MAP_INVERSE_depth:
  "map_of MAP_INVERSE k = Some ''depth'' \<longleftrightarrow> k = ''depth''"
  by (simp add: MAP_INVERSE_eq)

lemma fold_update_map_of:
  "map_of (foldl (\<lambda>d (k, v). AList.update k v d) acc items) k
     = (case map_of (rev items) k of None \<Rightarrow> map_of acc k | Some v \<Rightarrow> Some v)"
proof (induction items arbitrary: acc)
  case Nil
  show ?case by simp
next
  case (Cons kv items)
  obtain k' v' where kv: "kv = (k', v')" by (cases kv)
  show ?case
    by (simp add: Cons.IH kv update_conv' map_add_def split: option.splits)
qed

lemma py_dict_map_of: "map_of (py_dict items) k = map_of (rev items) k"
  by (simp add: py_dict_def fold_update_map_of split: option.splits)

lemma map_of_unique:
  assumes "(k, v) \<in> set xs" and "\<forall>v'. (k, v') \<in> set xs \<longrightarrow> v' = v"
  shows "map_of xs k = Some v"
proof -
  from assms(1) obtain v' where s: "map_of xs k = Some v'"
    using weak_map_of_SomeI by fastforce
  then have "(k, v') \<in> set xs" by (rule map_of_SomeD)
  with assms(2) s show ?thesis by simp
qed

lemma inverse_items_depth:
  assumes "inverse_items result = Inr items"
  shows "(''depth'', v) \<in> set items \<longleftrightarrow> (''depth'', v) \<in> set result"
  using assms
proof (induction result arbitrary: items)
  case Nil
  then show ?case by simp
next
  case (Cons kv result)
  obtain k' v' where kv: "kv = (k', v')" by (cases kv)
  from Cons.prems kv obtain l rest where
    l: "map_of MAP_INVERSE k' = Some l" and r: "inverse_items result = Inr rest"
    and i: "items = (l, v') # rest"
    by (auto split: option.splits sum.splits)
  from MAP_INVERSE_depth[of k'] l have "l = ''depth'' \<longleftrightarrow> k' = ''depth''" by auto
  with Cons.IH[OF r] i kv show ?case by auto
qed

lemma event_depth_before_conversion:
  assumes "inverse_items result = Inr items" and "distinct (map fst result)"
    and "(''depth'', raw) \<in> set result"
  shows "map_of (py_dict items) ''depth'' = Some raw"
proof -
  have "map_of (rev items) ''depth'' = Some raw"
  proof (rule map_of_unique)
    show "(''depth'', raw) \<in> set (rev items)"
      using assms(1,3) by (simp add: inverse_items_depth)
    show "\<forall>v'. (''depth'', v') \<in> set (rev items) \<longrightarrow> v' = raw"
    proof (intro allI impI)
      fix v' assume "(''depth'', v') \<in> set (rev items)"
      with assms(1) have "(''depth'', v') \<in> set result" by (simp add: inverse_items_depth)
      with assms(2,3) show "v' = raw" by (meson eq_key_imp_eq_value)
    qed
  qed
  then show ?thesis by (simp add: py_dict_map_of)
qed

lemma convert_key_Inr:
  assumes "convert_key f k event = Inr event'"
  shows "\<exists>v v'. map_of event k = Some v \<and> f v = Inr v'
           \<and> (\<forall>r. map_of event' r = (if r = k then Some v' else map_of event r))"
  using assms
  by (auto simp: convert_key_def update_conv' split: option.splits sum.splits)

lemma float_keys_loop_untouched:
  assumes "float_keys_loop stf ks event = Inr event'" and "k \<notin> set ks"
  shows "map_of event' k = map_of event k"
  using assms
proof (induction ks arbitrary: event)
  case Nil
  then show ?case by simp
next
  case (Cons k' ks)
  from Cons.prems(1) obtain event1 where
    c: "convert_key (py_float stf) k' event = Inr event1"
    and l: "float_keys_loop stf ks event1 = Inr event'"
    by (auto split: sum.splits)
  from convert_key_Inr[OF c] Cons.prems(2) have "map_of event1 k = map_of event k" by auto
  with Cons.IH[OF l] Cons.prems(2) show ?case by simp
qed

lemma json2event_depth:
  assumes ev: "json2event rt result = Inr event"
    and keys: "distinct (map fst result)"
    and raw: "(''depth'', raw) \<in> set result"
    and d: "py_float (str_to_float rt) raw = Inr (PFloat d)"
  shows "map_of event ''depth'' = Some (PFloat (- d))"
proof -
  from ev obtain items where items: "inverse_items result = Inr items"
    by (cases "inverse_items result") (simp_all add: json2event_def)
  from ev items obtain event1 where
    e1: "float_keys_loop (str_to_float rt) float_keys (py_dict items) = Inr event1"
    by (cases "float_keys_loop (str_to_float rt) float_keys (py_dict items)")
       (simp_all add: json2event_def)
  from ev items e1 obtain event2 where
    e2: "convert_key py_lower ''magnitude_type'' event1 = Inr event2"
    by (cases "convert_key py_lower ''magnitude_type'' event1") (simp_all add: json2event_def)
  let ?utc = "\<lambda>v. case UTCDateTime rt v of Inl e \<Rightarrow> Inl e | Inr t \<Rightarrow> Inr (PUTCDateTime t)"
  from ev items e1 e2 obtain event3 where
    e3: "convert_key ?utc ''datetime'' event2 = Inr event3"
    by (cases "convert_key ?utc ''datetime'' event2") (simp_all add: json2event_def)
  from ev items e1 e2 e3 have e4: "convert_key py_neg ''depth'' event3 = Inr event"
    by (simp add: json2event_def)
  have d0: "map_of (py_dict items) ''depth'' = Some raw"
    by (rule event_depth_before_conversion[OF items keys raw])
  from e1 obtain event_a where
    a: "convert_key (py_float (str_to_float rt)) ''depth'' (py_dict items) = Inr event_a"
    and rest: "float_keys_loop (str_to_float rt) [''latitude'', ''longitude'', ''magnitude'']
                 event_a = Inr event1"
    by (auto simp: float_keys_def split: sum.splits)
  from convert_key_Inr[OF a] d0 d have "map_of event_a ''depth'' = Some (PFloat d)" by auto
  moreover have "map_of event1 ''depth'' = map_of event_a ''depth''"
    by (rule float_keys_loop_untouched[OF rest]) simp
  moreover from convert_key_Inr[OF e2] have "map_of event2 ''depth'' = map_of event1 ''depth''"
    by auto
  moreover from convert_key_Inr[OF e3] have "map_of event3 ''depth'' = map_of event2 ''depth''"
    by auto
  ultimately have "map_of event3 ''depth'' = Some (PFloat d)" by simp
  with convert_key_Inr[OF e4] show ?thesis by auto
qed

lemma json2list_loop_nth:
  assumes "json2list_loop rt records = Inr events"
  shows "length events = length records
       \<and> (\<forall>i<length records. json2event rt (records ! i) = Inr (events ! i))"
  using assms
proof (induction records arbitrary: events)
  case Nil
  then show ?case by simp
next
  case (Cons x records)
  from Cons.prems obtain event rest where
    e: "json2event rt x = Inr event" and r: "json2list_loop rt records = Inr rest"
    and ev: "events = event # rest"
    by (auto split: sum.splits)
  from Cons.IH[OF r] e ev show ?case
    by (auto simp: nth_Cons split: nat.splits)
qed

lemma sent_depth_number:
  "sent_depth (PFloat x) = PFloat (- x)" "sent_depth (PInt n) = PInt (- n)"
  by (simp_all add: sent_depth_def)

text \<open>
  C8. Python floats are read as real numbers here; the source only negates them.
  When \<open>_json2list\<close> succeeds, the event made from a record whose remote depth is
  the number \<open>d\<close> has the depth \<open>- d\<close>. A call of \<open>getEvents\<close> whose depth bounds are
  numbers sends each bound with its sign changed, and so a bound that is the depth of
  such an event is sent as the remote value \<open>d\<close> again.
\<close>

theorem depth_sign_round_trip:
  assumes norm: "json2list rt data = Inr events" "json_loads rt data = Inr doc"
      "map_of doc ''unids'' = Some records"
    and entry: "i < length records" "distinct (map fst (records ! i))"
      "(''depth'', raw) \<in> set (records ! i)"
      "py_float (str_to_float rt) raw = Inr (PFloat d)"
    and call: "length args < 16" "distinct (map fst kwargs)"
    and numbers: "\<forall>k v. (k, v) \<in> set kwargs \<and> (k = ''min_depth'' \<or> k = ''max_depth'')
                    \<longrightarrow> (\<exists>n. v = PInt n) \<or> (\<exists>x. v = PFloat x)"
  shows "length events = length records
       \<and> map_of (events ! i) ''depth'' = Some (PFloat (- d))
       \<and> (\<exists>format q. getEvents_query args kwargs = Inr (format, q)
            \<and> (\<forall>x. (''min_depth'', PFloat x) \<in> set kwargs
                  \<longrightarrow> map_of q ''depthMin'' = Some (PFloat (- x)))
            \<and> (\<forall>x. (''max_depth'', PFloat x) \<in> set kwargs
                  \<longrightarrow> map_of q ''depthMax'' = Some (PFloat (- x)))
            \<and> (\<forall>n. (''min_depth'', PInt n) \<in> set kwargs
                  \<longrightarrow> map_of q ''depthMin'' = Some (PInt (- n)))
            \<and> (\<forall>n. (''max_depth'', PInt n) \<in> set kwargs
                  \<longrightarrow> map_of q ''depthMax'' = Some (PInt (- n)))
            \<and> ((''min_depth'', the (map_of (events ! i) ''depth'')) \<in> set kwargs
                  \<longrightarrow> map_of q ''depthMin'' = Some (PFloat d))
            \<and> ((''max_depth'', the (map_of (events ! i) ''depth'')) \<in> set kwargs
                  \<longrightarrow> map_of q ''depthMax'' = Some (PFloat d)))"
proof -
  from norm have loop: "json2list_loop rt records = Inr events"
    by (simp add: json2list_def)
  from json2list_loop_nth[OF loop] entry(1)
  have len: "length events = length records"
    and ev: "json2event rt (records ! i) = Inr (events ! i)" by auto
  have depth: "map_of (events ! i) ''depth'' = Some (PFloat (- d))"
    by (rule json2event_depth[OF ev entry(2) entry(3) entry(4)])
  have ok: "\<forall>k v. (k, v) \<in> set kwargs \<and> (k = ''min_depth'' \<or> k = ''max_depth'')
                  \<longrightarrow> \<not> py_truth v \<or> (\<exists>i. v = PInt i) \<or> (\<exists>x. v = PFloat x)"
    using numbers by blast
  from getEvents_query_result[OF call ok] obtain format q where
    q: "getEvents_query args kwargs = Inr (format, q)"
    and v: "\<And>k v r. (k, v) \<in> set kwargs \<Longrightarrow> map_of MAP k = Some r \<Longrightarrow> r \<noteq> ''format''
          \<Longrightarrow> map_of q r = Some (if r = ''depthMin'' \<or> r = ''depthMax''
                                    then sent_depth v else v)"
    by blast
  have lo: "\<And>v. (''min_depth'', v) \<in> set kwargs \<Longrightarrow> map_of q ''depthMin'' = Some (sent_depth v)"
    using v[OF _ MAP_depth_keys(1)] by simp
  have hi: "\<And>v. (''max_depth'', v) \<in> set kwargs \<Longrightarrow> map_of q ''depthMax'' = Some (sent_depth v)"
    using v[OF _ MAP_depth_keys(2)] by simp
  from lo hi depth
  have "(\<forall>x. (''min_depth'', PFloat x) \<in> set kwargs
                  \<longrightarrow> map_of q ''depthMin'' = Some (PFloat (- x)))
            \<and> (\<forall>x. (''max_depth'', PFloat x) \<in> set kwargs
                  \<longrightarrow> map_of q ''depthMax'' = Some (PFloat (- x)))
            \<and> (\<forall>n. (''min_depth'', PInt n) \<in> set kwargs
                  \<longrightarrow> map_of q ''depthMin'' = Some (PInt (- n)))
            \<and> (\<forall>n. (''max_depth'', PInt n) \<in> set kwargs
                  \<longrightarrow> map_of q ''depthMax'' = Some (PInt (- n)))
            \<and> ((''min_depth'', the (map_of (events ! i) ''depth'')) \<in> set kwargs
                  \<longrightarrow> map_of q ''depthMin'' = Some (PFloat d))
            \<and> ((''max_depth'', the (map_of (events ! i) ''depth'')) \<in> set kwargs
                  \<longrightarrow> map_of q ''depthMax'' = Some (PFloat d))"
    by (auto simp: sent_depth_number)
  with len depth q show ?thesis by blast
qed

lemma demo_json2list: "\<exists>events. json2list demo_runtime [] = Inr events"
  by (simp add: json2list_def demo_runtime_def demo_record_def json2event_def MAP_INVERSE_eq
      py_dict_def float_keys_def convert_key_def)

theorem depth_sign_round_trip_witness:
  "\<exists>events. json2list demo_runtime [] = Inr events
      \<and> length events = 1
      \<and> map_of (events ! 0) ''depth'' = Some (PFloat (- 10))
      \<and> (\<exists>format q.
            getEvents_query [] [(''min_depth'', PFloat (- 10)), (''max_depth'', PInt 0)]
              = Inr (format, q)
          \<and> map_of q ''depthMin'' = Some (PFloat 10)
          \<and> map_of q ''depthMax'' = Some (PInt 0))"
proof -
  from demo_json2list obtain events where n: "json2list demo_runtime [] = Inr events" ..
  have l: "json_loads demo_runtime [] = Inr [(''unids'', [demo_record])]"
    by (simp add: demo_runtime_def)
  have u: "map_of [(''unids'', [demo_record])] ''unids'' = Some [demo_record]" by simp
  have i: "0 < length [demo_record]" by simp
  have k: "distinct (map fst ([demo_record] ! 0))" by (simp add: demo_record_def)
  have r: "(''depth'', PInt 10) \<in> set ([demo_record] ! 0)" by (simp add: demo_record_def)
  have f: "py_float (str_to_float demo_runtime) (PInt 10) = Inr (PFloat 10)" by simp
  have a: "length ([] :: pyval list) < 16" by simp
  have kk: "distinct (map fst [(''min_depth'', PFloat (- 10)), (''max_depth'', PInt 0)])"
    by simp
  have nn: "\<forall>k v. (k, v) \<in> set [(''min_depth'', PFloat (- 10)), (''max_depth'', PInt 0)]
                 \<and> (k = ''min_depth'' \<or> k = ''max_depth'')
                    \<longrightarrow> (\<exists>n. v = PInt n) \<or> (\<exists>x. v = PFloat x)"
    by auto
  from depth_sign_round_trip [OF n l u i k r f a kk nn]
  obtain format q where
    len: "length events = length [demo_record]"
    and dep: "map_of (events ! 0) ''depth'' = Some (PFloat (- 10))"
    and q: "getEvents_query [] [(''min_depth'', PFloat (- 10)), (''max_depth'', PInt 0)]
              = Inr (format, q)"
    and again: "(''min_depth'', the (map_of (events ! 0) ''depth''))
                 \<in> set [(''min_depth'', PFloat (- 10)), (''max_depth'', PInt 0)]
                  \<longrightarrow> map_of q ''depthMin'' = Some (PFloat 10)"
    and hi: "\<forall>n. (''max_depth'', PInt n)
                 \<in> set [(''min_depth'', PFloat (- 10)), (''max_depth'', PInt 0)]
                  \<longrightarrow> map_of q ''depthMax'' = Some (PInt (- n))"
    by blast
  from again dep have "map_of q ''depthMin'' = Some (PFloat 10)" by simp
  moreover from hi have "map_of q ''depthMax'' = Some (PInt 0)" by simp
  ultimately show ?thesis using n len dep q by auto
qed

end
